theory Spec2Isabelle
  imports Complex_Main
begin

section \<open>Python values shared by both variants of the image downloader\<close>

text \<open>
  The repository holds the image downloader twice: the legacy script
  \<^verbatim>\<open>images_extractor.py\<close> and the packaged class in
  \<^verbatim>\<open>markdown_toolset/image_downloader.py\<close>. Both are embedded below.
  Strings are \<open>char list\<close>s, byte strings as well. Python exceptions are values of
  \<open>exn\<close>; a function that may raise returns \<open>exn + 'a\<close> with \<open>Inl\<close> the raised
  exception. Everything a run does to the outside world (printing or logging, network
  calls, file reads and writes) is appended to a trace of \<open>effect\<close>s, in program order.
\<close>

type_synonym bytes = string

datatype exn =
    AssertionError string
  | IndexError
  | KeyError string
  | TypeError
  | ValueError
  | SSLError
  | OSError_Response int
  | FileNotFoundError
  | FileExistsError
  | PermissionError
  | ConnectionError
  | Timeout
  | KeyboardInterrupt

text \<open>\<^verbatim>\<open>except Exception\<close> catches every exception class but the ones that derive
  from \<^verbatim>\<open>BaseException\<close> alone.\<close>

fun is_Exception :: "exn \<Rightarrow> bool" where
  "is_Exception KeyboardInterrupt = False"
| "is_Exception _ = True"

record response =
  url :: string
  status_code :: int
  headers :: "(string \<times> string) list"
  content :: bytes

text \<open>The messages of the two variants, without their formatting.\<close>

datatype message =
    Skipped_in_skip_list nat string
  | Skipped_incorrect_url nat string
  | Downloading nat nat string
  | Cannot_download_continuing nat exn
  | Incorrect_ssl_certificate
  | Will_be_written string
  | Has_incorrect_url nat string
  | Trying_base_url string
  | Downloading_will_be_skipped
  | Cannot_get_continuing nat exn

datatype level = STDOUT | DEBUG | INFO | WARNING

datatype effect =
    Log level message
  | Requests_get string bool real
  | Download_from_url string "real option"
  | Makedirs string
  | Read_file string
  | Write_file string bytes

subsection \<open>String operations of the standard library\<close>

definition startswith :: "string \<Rightarrow> string \<Rightarrow> bool" where
  "startswith s p = (take (length p) s = p)"

definition endswith :: "string \<Rightarrow> string \<Rightarrow> bool" where
  "endswith s p = (drop (length s - length p) s = p \<and> length p \<le> length s)"

text \<open>\<^verbatim>\<open>s.find(c)\<close>: the index of the first occurrence, \<open>-1\<close> when there is none.\<close>

fun str_find :: "string \<Rightarrow> char \<Rightarrow> int" where
  "str_find [] c = -1"
| "str_find (x # xs) c =
     (if x = c then 0 else (let r = str_find xs c in if r < 0 then -1 else r + 1))"

text \<open>\<^verbatim>\<open>s.rsplit(c, 1)\<close>: one split at the last occurrence of \<open>c\<close>.\<close>

definition rsplit1 :: "string \<Rightarrow> char \<Rightarrow> string list" where
  "rsplit1 s c =
     (if c \<in> set s
      then [rev (tl (dropWhile (\<lambda>x. x \<noteq> c) (rev s))), rev (takeWhile (\<lambda>x. x \<noteq> c) (rev s))]
      else [s])"

text \<open>\<^verbatim>\<open>xs[i]\<close> for a non-negative constant index.\<close>

definition py_index :: "'a list \<Rightarrow> nat \<Rightarrow> exn + 'a" where
  "py_index xs i = (if i < length xs then Inr (xs ! i) else Inl IndexError)"

text \<open>\<^verbatim>\<open>s.partition(c)[0]\<close>: the part before the first \<open>c\<close>, all of \<open>s\<close> without one.\<close>

definition partition_head :: "string \<Rightarrow> char \<Rightarrow> string" where
  "partition_head s c = takeWhile (\<lambda>x. x \<noteq> c) s"

text \<open>Whitespace as \<^verbatim>\<open>str.isspace\<close> and the pattern \<^verbatim>\<open>\s\<close> see it below code point 128:
  tab to carriage return, the four separators 28 to 31, and the space.\<close>

definition is_space :: "char \<Rightarrow> bool" where
  "is_space c = (let n = (of_char c :: nat) in (9 \<le> n \<and> n \<le> 13) \<or> (28 \<le> n \<and> n \<le> 31) \<or> n = 32)"

text \<open>The pattern \<^verbatim>\<open>\w\<close> below code point 128: letters, digits and the underscore.\<close>

definition is_word_char :: "char \<Rightarrow> bool" where
  "is_word_char c = (let n = (of_char c :: nat) in
     (48 \<le> n \<and> n \<le> 57) \<or> (65 \<le> n \<and> n \<le> 90) \<or> (97 \<le> n \<and> n \<le> 122) \<or> n = 95)"

definition strip :: "string \<Rightarrow> string" where
  "strip s = rev (dropWhile is_space (rev (dropWhile is_space s)))"

definition lower_char :: "char \<Rightarrow> char" where
  "lower_char c =
     (case map_of (zip ''ABCDEFGHIJKLMNOPQRSTUVWXYZ'' ''abcdefghijklmnopqrstuvwxyz'') c of
        Some l \<Rightarrow> l
      | None \<Rightarrow> c)"

definition lower :: "string \<Rightarrow> string" where
  "lower s = map lower_char s"

text \<open>\<^verbatim>\<open>os.path.splitext\<close> (\<^verbatim>\<open>genericpath._splitext\<close>): the extension starts at the
  last dot of the last path component, unless only dots precede it there.\<close>

definition rfind :: "string \<Rightarrow> char \<Rightarrow> int" where
  "rfind s c = (if c \<in> set s then int (length s) - 1 - int (length (takeWhile (\<lambda>x. x \<noteq> c) (rev s))) else -1)"

definition splitext :: "string \<Rightarrow> string \<times> string" where
  "splitext p =
     (let sepIndex = rfind p CHR ''/''; dotIndex = rfind p CHR ''.'' in
      if dotIndex > sepIndex \<and>
         (\<exists>x \<in> set (take (nat (dotIndex - (sepIndex + 1))) (drop (nat (sepIndex + 1)) p)). x \<noteq> CHR ''.'')
      then (take (nat dotIndex) p, drop (nat dotIndex) p)
      else (p, []))"

text \<open>\<^verbatim>\<open>posixpath.join(a, b)\<close>; joining with \<^verbatim>\<open>None\<close> raises \<^verbatim>\<open>TypeError\<close>.\<close>

definition path_join :: "string \<Rightarrow> string \<Rightarrow> string" where
  "path_join a b =
     (if startswith b ''/'' then b
      else if a = [] \<or> endswith a ''/'' then a @ b
      else a @ ''/'' @ b)"

definition path_join_opt :: "string \<Rightarrow> string option \<Rightarrow> exn + string" where
  "path_join_opt a b = (case b of None \<Rightarrow> Inl TypeError | Some f \<Rightarrow> Inr (path_join a f))"

text \<open>\<^verbatim>\<open>posixpath.dirname\<close>: everything up to the last slash, trailing slashes
  removed unless the head is made of slashes only.\<close>

definition dirname :: "string \<Rightarrow> string" where
  "dirname p =
     (let head = take (nat (rfind p CHR ''/'' + 1)) p in
      if head \<noteq> [] \<and> (\<exists>x \<in> set head. x \<noteq> CHR ''/'')
      then rev (dropWhile (\<lambda>x. x = CHR ''/'') (rev head))
      else head)"

text \<open>\<^verbatim>\<open>a or b\<close> on strings: the empty string is false.\<close>

definition str_or :: "string \<Rightarrow> string \<Rightarrow> string" where
  "str_or a b = (if a \<noteq> [] then a else b)"

subsection \<open>Dictionaries that keep insertion order\<close>

text \<open>A \<^verbatim>\<open>dict\<close> is an association list with one pair per key, in insertion order.\<close>

definition dict_keys :: "('k \<times> 'v) list \<Rightarrow> 'k list" where
  "dict_keys m = map fst m"

definition dict_values :: "('k \<times> 'v) list \<Rightarrow> 'v list" where
  "dict_values m = map snd m"

definition setdefault :: "('k \<times> 'v) list \<Rightarrow> 'k \<Rightarrow> 'v \<Rightarrow> ('k \<times> 'v) list" where
  "setdefault m k v = (if k \<in> set (dict_keys m) then m else m @ [(k, v)])"

fun dict_set :: "('k \<times> 'v) list \<Rightarrow> 'k \<Rightarrow> 'v \<Rightarrow> ('k \<times> 'v) list" where
  "dict_set [] k v = [(k, v)]"
| "dict_set ((k', v') # m) k v = (if k' = k then (k, v) # m else (k', v') # dict_set m k v)"

text \<open>\<^verbatim>\<open>d.get(k)\<close> where the values may be \<^verbatim>\<open>None\<close> themselves.\<close>

definition dict_get :: "('k \<times> 'v option) list \<Rightarrow> 'k \<Rightarrow> 'v option" where
  "dict_get m k = (case map_of m k of None \<Rightarrow> None | Some v \<Rightarrow> v)"

text \<open>The headers of a response are looked up without regard to case.\<close>

definition header_get :: "(string \<times> string) list \<Rightarrow> string \<Rightarrow> string option" where
  "header_get hs k = map_of (map (\<lambda>(n, v). (lower n, v)) hs) (lower k)"

section \<open>The outside world\<close>

text \<open>
  What the code calls but the repository's files do not define: the \<^verbatim>\<open>requests\<close>,
  \<^verbatim>\<open>hashlib\<close>, \<^verbatim>\<open>mimetypes\<close> and \<^verbatim>\<open>unicodedata\<close> libraries, the file system,
  and the three functions the packaged variant imports from \<^verbatim>\<open>www_tools\<close>. Each is
  a parameter. \<open>nfkd_ascii\<close> stands for
  \<^verbatim>\<open>unicodedata.normalize('NFKD', value).encode('ascii', 'ignore')\<close>; on a string of
  ASCII characters it is the identity.
\<close>

record world =
  requests_get :: "string \<Rightarrow> bool \<Rightarrow> real \<Rightarrow> exn + response"
  guess_extension :: "string \<Rightarrow> string option"
  nfkd_ascii :: "string \<Rightarrow> string"
  sha256_digest :: "bytes \<Rightarrow> string"
  md5_hexdigest :: "string \<Rightarrow> string"
  makedirs :: "string \<Rightarrow> exn option"
  open_write :: "string \<Rightarrow> bytes \<Rightarrow> exn option"
  open_read :: "string \<Rightarrow> exn + bytes"
  is_url :: "string \<Rightarrow> bool"
  download_from_url :: "string \<Rightarrow> real option \<Rightarrow> exn + response"
  www_get_filename_from_url :: "response \<Rightarrow> exn + string option"

section \<open>The legacy script\<close>

subsection \<open>slugify and get_filename_from_url\<close>

definition is_dash_space :: "char \<Rightarrow> bool" where
  "is_dash_space c = (c = CHR ''-'' \<or> is_space c)"

text \<open>\<^verbatim>\<open>re.sub(r'[-\s]+', '-', value)\<close>: every maximal run of hyphens and whitespace
  becomes one hyphen.\<close>

function sub_dashes :: "string \<Rightarrow> string" where
  "sub_dashes [] = []"
| "sub_dashes (c # cs) =
     (if is_dash_space c then CHR ''-'' # sub_dashes (dropWhile is_dash_space cs)
      else c # sub_dashes cs)"
  by pat_completeness auto
termination
  by (relation "measure length") (auto simp: length_dropWhile_le less_Suc_eq_le)

definition slugify :: "world \<Rightarrow> string \<Rightarrow> string" where
  "slugify w v =
     (let v1 = nfkd_ascii w v;
          v2 = lower (strip (filter (\<lambda>c. is_word_char c \<or> is_space c \<or> c = CHR ''-'') v1))
      in sub_dashes v2)"

text \<open>\<^verbatim>\<open>re.findall('filename=(.+)', cd)\<close>: the dot matches every character but the
  newline, the group is greedy, and the search goes on behind each match.\<close>

definition newline :: char where
  "newline = CHR 0x0A"

function findall_filename :: "string \<Rightarrow> string list" where
  "findall_filename [] = []"
| "findall_filename (c # cs) =
     (let after = drop 9 (c # cs); grp = takeWhile (\<lambda>x. x \<noteq> newline) after in
      if startswith (c # cs) ''filename='' \<and> grp \<noteq> []
      then grp # findall_filename (dropWhile (\<lambda>x. x \<noteq> newline) after)
      else findall_filename cs)"
  by pat_completeness auto
termination
proof (relation "measure length")
  show "wf (measure length)" by simp
next
  fix c :: char and cs x xa
  assume "x = drop 9 (c # cs)"
  then have "length (dropWhile (\<lambda>y. y \<noteq> newline) x) \<le> length cs"
    using length_dropWhile_le [of "\<lambda>y. y \<noteq> newline" x] by simp
  then show "(dropWhile (\<lambda>y. y \<noteq> newline) x, c # cs) \<in> measure length" by simp
next
  fix c :: char and cs
  show "(cs, c # cs) \<in> measure length" by simp
qed

text \<open>How an f-string prints an optional string.\<close>

definition str_of_opt :: "string option \<Rightarrow> string" where
  "str_of_opt x = (case x of None \<Rightarrow> ''None'' | Some s \<Rightarrow> s)"

definition get_filename_from_url :: "world \<Rightarrow> response \<Rightarrow> exn + string option" where
  "get_filename_from_url w req =
     (let found =
        (if str_find (url req) CHR ''/'' \<noteq> 0
         then map_sum id Some (py_index (rsplit1 (url req) CHR ''/'') 1)
         else (case header_get (headers req) ''content-disposition'' of
                 None \<Rightarrow> Inr None
               | Some cd \<Rightarrow>
                   (case findall_filename cd of
                      [] \<Rightarrow> Inr None
                    | file_name # _ \<Rightarrow> Inr (Some file_name))))
      in case found of
           Inl e \<Rightarrow> Inl e
         | Inr None \<Rightarrow> Inr None
         | Inr (Some result) \<Rightarrow>
             (let (f_name, f_ext) = splitext result in
              if f_ext = []
              then (case header_get (headers req) ''content-type'' of
                      None \<Rightarrow> Inl (KeyError ''content-type'')
                    | Some ct \<Rightarrow>
                        Inr (Some (slugify w f_name @
                          str_of_opt (guess_extension w (strip (partition_head ct CHR '';''))))))
              else Inr (Some (slugify w f_name @ ''.'' @ slugify w f_ext))))"

subsection \<open>The class ImageDownloader of the legacy script\<close>

record legacy_downloader =
  l_img_dir_name :: string
  l_img_public_path :: string
  l_article_file_path :: string
  l_skip_list :: "string list"
  l_images_dir :: string
  l_skip_all_errors :: bool
  l_downloading_timeout :: real
  l_deduplication :: bool

text \<open>\<^verbatim>\<open>__init__\<close>, with every argument given.\<close>

definition legacy_init ::
  "string \<Rightarrow> string list option \<Rightarrow> bool \<Rightarrow> string \<Rightarrow> string \<Rightarrow> real \<Rightarrow> bool \<Rightarrow> legacy_downloader" where
  "legacy_init article_path skip_list skip_all_errors img_dir_name img_public_path
       downloading_timeout deduplication =
     \<lparr> l_img_dir_name = img_dir_name,
       l_img_public_path = img_public_path,
       l_article_file_path = article_path,
       l_skip_list = (case skip_list of None \<Rightarrow> [] | Some xs \<Rightarrow> xs),
       l_images_dir = path_join (dirname article_path) img_dir_name,
       l_skip_all_errors = skip_all_errors,
       l_downloading_timeout = downloading_timeout,
       l_deduplication = deduplication \<rparr>"

text \<open>The state of one call of \<^verbatim>\<open>download_images\<close>: its two dictionaries and what it
  has done to the world so far.\<close>

record legacy_state =
  l_replacement_mapping :: "(string \<times> string) list"
  l_hash_to_path_mapping :: "(string \<times> string option) list"
  l_trace :: "effect list"

definition l_emit :: "effect list \<Rightarrow> legacy_state \<Rightarrow> legacy_state" where
  "l_emit es st = st\<lparr>l_trace := l_trace st @ es\<rparr>"

definition allowed_url_prefixes :: "string list" where
  "allowed_url_prefixes = [''http'', ''ftp'']"

definition is_allowed_url_prefix :: "string \<Rightarrow> bool" where
  "is_allowed_url_prefix u = list_ex (\<lambda>p. startswith u p) allowed_url_prefixes"

text \<open>\<^verbatim>\<open>_download_image\<close>: the result and the effects of the call.\<close>

definition check_status :: "response \<Rightarrow> exn + response" where
  "check_status img_response =
     (if status_code img_response \<noteq> 200 then Inl (OSError_Response (status_code img_response))
      else Inr img_response)"

definition legacy_download_image ::
  "world \<Rightarrow> legacy_downloader \<Rightarrow> string \<Rightarrow> (exn + response) \<times> effect list" where
  "legacy_download_image w d image_url =
     (case requests_get w image_url True (l_downloading_timeout d) of
        Inl SSLError \<Rightarrow>
          (case requests_get w image_url False (l_downloading_timeout d) of
             Inl e \<Rightarrow> (Inl e,
               [Requests_get image_url True (l_downloading_timeout d),
                Log STDOUT Incorrect_ssl_certificate,
                Requests_get image_url False (l_downloading_timeout d)])
           | Inr img_response \<Rightarrow> (check_status img_response,
               [Requests_get image_url True (l_downloading_timeout d),
                Log STDOUT Incorrect_ssl_certificate,
                Requests_get image_url False (l_downloading_timeout d)]))
      | Inl e \<Rightarrow> (Inl e, [Requests_get image_url True (l_downloading_timeout d)])
      | Inr img_response \<Rightarrow>
          (check_status img_response, [Requests_get image_url True (l_downloading_timeout d)]))"

text \<open>\<^verbatim>\<open>_write_image\<close>.\<close>

definition legacy_write_image ::
  "world \<Rightarrow> string \<Rightarrow> bytes \<Rightarrow> legacy_state \<Rightarrow> exn + legacy_state" where
  "legacy_write_image w img_path data st =
     (case open_write w img_path data of
        Some e \<Rightarrow> Inl e
      | None \<Rightarrow> Inr (l_emit [Log STDOUT (Will_be_written img_path), Write_file img_path data] st))"

text \<open>\<^verbatim>\<open>_correct_paths\<close>: the loop over the items of the mapping, left at the first
  entry with the same path and another URL.\<close>

fun legacy_correct_paths ::
  "world \<Rightarrow> legacy_downloader \<Rightarrow> (string \<times> string) list \<Rightarrow> string \<Rightarrow> string \<Rightarrow> string
     \<Rightarrow> string \<times> string" where
  "legacy_correct_paths w d [] document_img_path img_url img_filename =
     (img_filename, document_img_path)"
| "legacy_correct_paths w d ((u, path) # items) document_img_path img_url img_filename =
     (if document_img_path = path \<and> img_url \<noteq> u
      then (md5_hexdigest w img_url @ ''_'' @ img_filename,
            path_join (str_or (l_img_public_path d) (l_img_dir_name d))
              (md5_hexdigest w img_url @ ''_'' @ img_filename))
      else legacy_correct_paths w d items document_img_path img_url img_filename)"

text \<open>The body of the loop behind the download: deduplication, the document path, the
  correction of the path, the entry of the mapping and the write.\<close>

definition legacy_store ::
  "world \<Rightarrow> legacy_downloader \<Rightarrow> legacy_state \<Rightarrow> string \<Rightarrow> string option \<Rightarrow> bytes
     \<Rightarrow> exn + legacy_state" where
  "legacy_store w d st img_url img_filename image_content =
     (let public_dir = str_or (l_img_public_path d) (l_img_dir_name d);
          existed_file_name =
            (if l_deduplication d
             then dict_get (l_hash_to_path_mapping st) (sha256_digest w image_content)
             else None)
      in case existed_file_name of
           Some existed \<Rightarrow>
             Inr (st\<lparr>l_replacement_mapping :=
                    setdefault (l_replacement_mapping st) img_url (path_join public_dir existed)\<rparr>)
         | None \<Rightarrow>
             (let st1 =
                (if l_deduplication d
                 then st\<lparr>l_hash_to_path_mapping :=
                        dict_set (l_hash_to_path_mapping st) (sha256_digest w image_content)
                          img_filename\<rparr>
                 else st)
              in case img_filename of
                   None \<Rightarrow> Inl TypeError
                 | Some filename \<Rightarrow>
                     (let (img_filename', document_img_path) =
                            legacy_correct_paths w d (l_replacement_mapping st1)
                              (path_join public_dir filename) img_url filename;
                          real_img_path = path_join (l_images_dir d) img_filename';
                          st2 = st1\<lparr>l_replacement_mapping :=
                                  setdefault (l_replacement_mapping st1) img_url document_img_path\<rparr>
                      in legacy_write_image w real_img_path image_content st2)))"

text \<open>One turn of the loop of \<^verbatim>\<open>download_images\<close>. \<open>Inr\<close> is the state at the end of
  the turn, reached by \<^verbatim>\<open>continue\<close> or by falling through; \<open>Inl\<close> is an exception
  that leaves the loop and the method.\<close>

definition legacy_step ::
  "world \<Rightarrow> legacy_downloader \<Rightarrow> nat \<Rightarrow> nat \<Rightarrow> legacy_state \<Rightarrow> string \<Rightarrow> exn + legacy_state" where
  "legacy_step w d img_count img_num st img_url =
     (if img_url \<in> set (dict_keys (l_replacement_mapping st)) then Inl (AssertionError img_url)
      else if img_url \<in> set (l_skip_list d)
      then Inr (l_emit [Log STDOUT (Skipped_in_skip_list (img_num + 1) img_url)] st)
      else if \<not> is_allowed_url_prefix img_url
      then Inr (l_emit [Log STDOUT (Skipped_incorrect_url (img_num + 1) img_url)] st)
      else
        (let (r, effects) = legacy_download_image w d img_url;
             st1 = l_emit (Log STDOUT (Downloading (img_num + 1) img_count img_url) # effects) st
         in case r of
              Inl e \<Rightarrow>
                if is_Exception e \<and> l_skip_all_errors d
                then Inr (l_emit [Log STDOUT (Cannot_download_continuing (img_num + 1) e)] st1)
                else Inl e
            | Inr img_response \<Rightarrow>
                (case get_filename_from_url w img_response of
                   Inl e \<Rightarrow> Inl e
                 | Inr img_filename \<Rightarrow>
                     legacy_store w d st1 img_url img_filename (content img_response))))"

fun legacy_loop ::
  "world \<Rightarrow> legacy_downloader \<Rightarrow> nat \<Rightarrow> nat \<Rightarrow> legacy_state \<Rightarrow> string list \<Rightarrow> exn + legacy_state" where
  "legacy_loop w d img_count img_num st [] = Inr st"
| "legacy_loop w d img_count img_num st (img_url # rest) =
     (case legacy_step w d img_count img_num st img_url of
        Inl e \<Rightarrow> Inl e
      | Inr st' \<Rightarrow> legacy_loop w d img_count (Suc img_num) st' rest)"

text \<open>\<^verbatim>\<open>download_images\<close>: the directory is made first, an existing one is no error.
  \<open>legacy_run\<close> is the whole final state, \<open>legacy_download_images\<close> the mapping the
  method returns.\<close>

definition legacy_initial_state :: "legacy_downloader \<Rightarrow> legacy_state" where
  "legacy_initial_state d =
     \<lparr> l_replacement_mapping = [], l_hash_to_path_mapping = [],
       l_trace = [Makedirs (l_images_dir d)] \<rparr>"

definition legacy_run :: "world \<Rightarrow> legacy_downloader \<Rightarrow> string list \<Rightarrow> exn + legacy_state" where
  "legacy_run w d images =
     (case makedirs w (l_images_dir d) of
        None \<Rightarrow> legacy_loop w d (length images) 0 (legacy_initial_state d) images
      | Some e \<Rightarrow>
          if e = FileExistsError
          then legacy_loop w d (length images) 0 (legacy_initial_state d) images
          else Inl e)"

definition legacy_download_images ::
  "world \<Rightarrow> legacy_downloader \<Rightarrow> string list \<Rightarrow> exn + (string \<times> string) list" where
  "legacy_download_images w d images = map_sum id l_replacement_mapping (legacy_run w d images)"

section \<open>The packaged variant\<close>

subsection \<open>pathlib\<close>

text \<open>
  A \<^verbatim>\<open>PurePosixPath\<close> is its root (empty, one slash, or two slashes when the string
  starts with exactly two) and its components, the empty ones and the dots removed.
\<close>

datatype pure_path = PurePath (path_root: string) (path_comps: "string list")

fun split_on :: "char \<Rightarrow> string \<Rightarrow> string list" where
  "split_on c [] = [[]]"
| "split_on c (x # xs) =
     (if x = c then [] # split_on c xs
      else (case split_on c xs of [] \<Rightarrow> [[x]] | y # ys \<Rightarrow> (x # y) # ys))"

definition Path :: "string \<Rightarrow> pure_path" where
  "Path s =
     PurePath
       (if startswith s ''//'' \<and> \<not> startswith s ''///'' then ''//''
        else if startswith s ''/'' then ''/'' else [])
       (filter (\<lambda>c. c \<noteq> [] \<and> c \<noteq> ''.'') (split_on CHR ''/'' s))"

text \<open>\<^verbatim>\<open>p / q\<close> for a path and \<^verbatim>\<open>p / key\<close> for a string: a right operand with a
  root replaces \<open>p\<close>.\<close>

definition path_div_path :: "pure_path \<Rightarrow> pure_path \<Rightarrow> pure_path" where
  "path_div_path p q =
     (if path_root q \<noteq> [] then q else PurePath (path_root p) (path_comps p @ path_comps q))"

definition path_div :: "pure_path \<Rightarrow> string \<Rightarrow> pure_path" where
  "path_div p key = path_div_path p (Path key)"

definition parts :: "pure_path \<Rightarrow> string list" where
  "parts p = (if path_root p \<noteq> [] then [path_root p] else []) @ path_comps p"

definition path_name :: "pure_path \<Rightarrow> string" where
  "path_name p = (if path_comps p = [] then [] else last (path_comps p))"

definition path_parent :: "pure_path \<Rightarrow> pure_path" where
  "path_parent p = PurePath (path_root p) (butlast (path_comps p))"

fun str_join :: "string \<Rightarrow> string list \<Rightarrow> string" where
  "str_join sep [] = []"
| "str_join sep [x] = x"
| "str_join sep (x # y # ys) = x @ sep @ str_join sep (y # ys)"

definition path_str :: "pure_path \<Rightarrow> string" where
  "path_str p =
     (if path_root p = [] \<and> path_comps p = [] then ''.''
      else path_root p @ str_join ''/'' (path_comps p))"

text \<open>The values of the replacement mapping are strings where this class stores them; a
  deduplicator may store paths. \<^verbatim>\<open>PurePath.__eq__\<close> answers \<^verbatim>\<open>NotImplemented\<close> for
  anything that is not a path, so a path is never equal to a string.\<close>

datatype pyval = PyStr string | PyPath pure_path

fun path_eq :: "pure_path \<Rightarrow> pyval \<Rightarrow> bool" where
  "path_eq p (PyStr s) = False"
| "path_eq p (PyPath q) = (p = q)"

subsection \<open>The class ImageDownloader\<close>

text \<open>The deduplicator is an object of a class the files do not hold: its method
  \<^verbatim>\<open>deduplicate\<close> is a parameter. It reads and may change its own state \<open>'d\<close> and
  the mapping it is given, and answers a truth value and a file name.\<close>

type_synonym 'd deduplicate =
  "'d \<Rightarrow> string \<Rightarrow> string option \<Rightarrow> bytes \<Rightarrow> (string \<times> pyval) list
     \<Rightarrow> exn + (bool \<times> string option \<times> 'd \<times> (string \<times> pyval) list)"

record 'd downloader =
  img_dir_name :: pure_path
  img_public_path :: "pure_path option"
  article_file_path :: pure_path
  article_base_url :: string
  skip_list :: "string list"
  images_dir :: pure_path
  skip_all_errors :: bool
  downloading_timeout :: "real option"
  process_local_images :: bool
  deduplicator :: "'d deduplicate option"

text \<open>\<^verbatim>\<open>__init__\<close>, with every argument given.\<close>

definition init ::
  "pure_path \<Rightarrow> string \<Rightarrow> string list option \<Rightarrow> bool \<Rightarrow> pure_path \<Rightarrow> pure_path option \<Rightarrow> real
     \<Rightarrow> 'd deduplicate option \<Rightarrow> bool \<Rightarrow> 'd downloader" where
  "init article_path base_url skips skip_errors dir_name public_path timeout dedup process_local =
     \<lparr> img_dir_name = dir_name,
       img_public_path = public_path,
       article_file_path = article_path,
       article_base_url = base_url,
       skip_list = (case skips of None \<Rightarrow> [] | Some xs \<Rightarrow> xs),
       images_dir = path_div_path (path_parent article_path) dir_name,
       skip_all_errors = skip_errors,
       downloading_timeout = (if timeout > 0 then Some timeout else None),
       process_local_images = process_local,
       deduplicator = dedup \<rparr>"

record 'd state =
  replacement_mapping :: "(string \<times> pyval) list"
  dedup_state :: 'd
  trace :: "effect list"

definition emit :: "effect list \<Rightarrow> 'd state \<Rightarrow> 'd state" where
  "emit es st = st\<lparr>trace := trace st @ es\<rparr>"

definition get_document_img_path :: "'d downloader \<Rightarrow> string \<Rightarrow> pure_path" where
  "get_document_img_path d image_filename =
     path_div (case img_public_path d of Some p \<Rightarrow> p | None \<Rightarrow> img_dir_name d) image_filename"

definition get_remote_image ::
  "world \<Rightarrow> 'd downloader \<Rightarrow> string \<Rightarrow> nat \<Rightarrow> nat
     \<Rightarrow> (exn + string option \<times> bytes) \<times> effect list" where
  "get_remote_image w d image_url img_num img_count =
     ((case download_from_url w image_url (downloading_timeout d) of
         Inl e \<Rightarrow> Inl e
       | Inr img_response \<Rightarrow>
           (case www_get_filename_from_url w img_response of
              Inl e \<Rightarrow> Inl e
            | Inr filename \<Rightarrow> Inr (filename, content img_response))),
      [Log INFO (Downloading (img_num + 1) img_count image_url),
       Download_from_url image_url (downloading_timeout d)])"

definition get_local_image ::
  "world \<Rightarrow> pure_path \<Rightarrow> (exn + string option \<times> bytes) \<times> effect list" where
  "get_local_image w image_path =
     ((case open_read w (path_str image_path) of
         Inl e \<Rightarrow> Inl e
       | Inr image_content \<Rightarrow> Inr (Some (path_name image_path), image_content)),
      [Read_file (path_str image_path)])"

definition write_image :: "world \<Rightarrow> pure_path \<Rightarrow> bytes \<Rightarrow> 'd state \<Rightarrow> exn + 'd state" where
  "write_image w image_path data st =
     (case open_write w (path_str image_path) data of
        Some e \<Rightarrow> Inl e
      | None \<Rightarrow>
          Inr (emit [Log INFO (Will_be_written (path_str image_path)),
                     Write_file (path_str image_path) data] st))"

text \<open>\<^verbatim>\<open>_correct_paths\<close>: the document path is a path object, the paths of the mapping
  are what the mapping holds.\<close>

fun correct_paths ::
  "world \<Rightarrow> 'd downloader \<Rightarrow> (string \<times> pyval) list \<Rightarrow> pure_path \<Rightarrow> string \<Rightarrow> string
     \<Rightarrow> string \<times> pure_path" where
  "correct_paths w d [] document_img_path img_url image_filename =
     (image_filename, document_img_path)"
| "correct_paths w d ((u, path) # items) document_img_path img_url image_filename =
     (if path_eq document_img_path path \<and> img_url \<noteq> u
      then (md5_hexdigest w img_url @ ''_'' @ image_filename,
            get_document_img_path d (md5_hexdigest w img_url @ ''_'' @ image_filename))
      else correct_paths w d items document_img_path img_url image_filename)"

text \<open>The end of the loop's body, from the document path to the write.\<close>

definition save ::
  "world \<Rightarrow> 'd downloader \<Rightarrow> 'd state \<Rightarrow> string \<Rightarrow> string option \<Rightarrow> bytes \<Rightarrow> exn + 'd state" where
  "save w d st image_url image_filename image_content =
     (case image_filename of
        None \<Rightarrow> Inl TypeError
      | Some filename \<Rightarrow>
          (let (image_filename', document_img_path) =
                 correct_paths w d (replacement_mapping st) (get_document_img_path d filename)
                   image_url filename;
               real_image_path = path_div (images_dir d) image_filename';
               st1 = st\<lparr>replacement_mapping :=
                       setdefault (replacement_mapping st) image_url
                         (PyStr (str_join ''/'' (parts document_img_path)))\<rparr>
           in write_image w real_image_path image_content st1))"

text \<open>The call of the deduplicator, when there is one: a false answer ends the turn.\<close>

definition store ::
  "world \<Rightarrow> 'd downloader \<Rightarrow> 'd state \<Rightarrow> string \<Rightarrow> string option \<Rightarrow> bytes \<Rightarrow> exn + 'd state" where
  "store w d st image_url image_filename image_content =
     (case deduplicator d of
        None \<Rightarrow> save w d st image_url image_filename image_content
      | Some deduplicate \<Rightarrow>
          (case deduplicate (dedup_state st) image_url image_filename image_content
                  (replacement_mapping st) of
             Inl e \<Rightarrow> Inl e
           | Inr (result, image_filename', ds, m) \<Rightarrow>
               if \<not> result then Inr (st\<lparr>replacement_mapping := m, dedup_state := ds\<rparr>)
               else save w d (st\<lparr>replacement_mapping := m, dedup_state := ds\<rparr>) image_url
                      image_filename' image_content))"

text \<open>The guarded part of the body: the image is fetched when \<open>image_path_is_url\<close>
  holds and read from the local file system otherwise.\<close>

definition obtain_image ::
  "world \<Rightarrow> 'd downloader \<Rightarrow> nat \<Rightarrow> nat \<Rightarrow> 'd state \<Rightarrow> string \<Rightarrow> bool \<Rightarrow> exn + 'd state" where
  "obtain_image w d images_count image_num st image_url image_path_is_url =
     (let (r, effects) =
            (if image_path_is_url then get_remote_image w d image_url image_num images_count
             else get_local_image w (Path image_url));
          st1 = emit effects st
      in case r of
           Inl e \<Rightarrow>
             if is_Exception e \<and> skip_all_errors d
             then Inr (emit [Log WARNING (Cannot_get_continuing (image_num + 1) e)] st1)
             else Inl e
         | Inr (image_filename, image_content) \<Rightarrow>
             store w d st1 image_url image_filename image_content)"

text \<open>One turn of the loop of \<^verbatim>\<open>download_images\<close>.\<close>

definition step ::
  "world \<Rightarrow> 'd downloader \<Rightarrow> nat \<Rightarrow> nat \<Rightarrow> 'd state \<Rightarrow> string \<Rightarrow> exn + 'd state" where
  "step w d images_count image_num st image_url =
     (if image_url \<in> set (dict_keys (replacement_mapping st)) then Inl (AssertionError image_url)
      else if image_url \<in> set (skip_list d)
      then Inr (emit [Log DEBUG (Skipped_in_skip_list (image_num + 1) image_url)] st)
      else if \<not> is_url w image_url \<and> \<not> process_local_images d
      then (if article_base_url d \<noteq> []
            then obtain_image w d images_count image_num
                   (emit [Log WARNING (Has_incorrect_url (image_num + 1) image_url),
                          Log DEBUG (Trying_base_url (article_base_url d))] st)
                   (article_base_url d @ ''/'' @ image_url) (is_url w image_url)
            else Inr (emit [Log WARNING (Has_incorrect_url (image_num + 1) image_url),
                            Log INFO Downloading_will_be_skipped] st))
      else obtain_image w d images_count image_num st image_url (is_url w image_url))"

fun loop ::
  "world \<Rightarrow> 'd downloader \<Rightarrow> nat \<Rightarrow> nat \<Rightarrow> 'd state \<Rightarrow> string list \<Rightarrow> exn + 'd state" where
  "loop w d images_count image_num st [] = Inr st"
| "loop w d images_count image_num st (image_url # rest) =
     (case step w d images_count image_num st image_url of
        Inl e \<Rightarrow> Inl e
      | Inr st' \<Rightarrow> loop w d images_count (Suc image_num) st' rest)"

text \<open>\<^verbatim>\<open>download_images\<close>. The deduplicator is made by the caller, so its state at
  the start of the run is an argument. \<open>run\<close> is the whole final state,
  \<open>download_images\<close> the mapping the method returns.\<close>

definition initial_state :: "'d downloader \<Rightarrow> 'd \<Rightarrow> 'd state" where
  "initial_state d ds =
     \<lparr> replacement_mapping = [], dedup_state = ds,
       trace = [Makedirs (path_str (images_dir d))] \<rparr>"

definition run :: "world \<Rightarrow> 'd downloader \<Rightarrow> 'd \<Rightarrow> string list \<Rightarrow> exn + 'd state" where
  "run w d ds images =
     (case makedirs w (path_str (images_dir d)) of
        None \<Rightarrow> loop w d (length images) 0 (initial_state d ds) images
      | Some e \<Rightarrow>
          if e = FileExistsError then loop w d (length images) 0 (initial_state d ds) images
          else Inl e)"

definition download_images ::
  "world \<Rightarrow> 'd downloader \<Rightarrow> 'd \<Rightarrow> string list \<Rightarrow> exn + (string \<times> pyval) list" where
  "download_images w d ds images = map_sum id replacement_mapping (run w d ds images)"

section \<open>What a run obtains for a reference\<close>

text \<open>
  Three notions to speak about the mapping a run returns; they are read off the loop's
  body and are no functions of the source. In the legacy script a reference is fetched
  when it passes the prefix test and \<^verbatim>\<open>_download_image\<close> returns a response. In the
  packaged variant \<open>effective_url\<close> is the string under which a reference is recorded
  (the reference, or the reference behind the base URL), \<open>obtained\<close> is what the guarded
  part of the body yields for it, and it is fetched when the body comes to that part and
  the part raises nothing.
\<close>

definition legacy_fetched :: "world \<Rightarrow> legacy_downloader \<Rightarrow> string \<Rightarrow> bool" where
  "legacy_fetched w d u =
     (is_allowed_url_prefix u \<and>
      (case fst (legacy_download_image w d u) of Inl e \<Rightarrow> False | Inr r \<Rightarrow> True))"

definition effective_url :: "world \<Rightarrow> 'd downloader \<Rightarrow> string \<Rightarrow> string" where
  "effective_url w d u =
     (if \<not> is_url w u \<and> \<not> process_local_images d then article_base_url d @ ''/'' @ u else u)"

definition obtained :: "world \<Rightarrow> 'd downloader \<Rightarrow> string \<Rightarrow> exn + string option \<times> bytes" where
  "obtained w d u =
     fst (if is_url w u then get_remote_image w d (effective_url w d u) 0 0
          else get_local_image w (Path (effective_url w d u)))"

definition fetched :: "world \<Rightarrow> 'd downloader \<Rightarrow> string \<Rightarrow> bool" where
  "fetched w d u =
     ((is_url w u \<or> process_local_images d \<or> article_base_url d \<noteq> []) \<and>
      (case obtained w d u of Inl e \<Rightarrow> False | Inr x \<Rightarrow> True))"

section \<open>A concrete world and concrete downloaders\<close>

text \<open>
  A small world to run both variants in. Its network knows a handful of URLs and answers
  every other one with a connection error; as the \<^verbatim>\<open>requests\<close> library does, it
  refuses a timeout that is not positive with a \<^verbatim>\<open>ValueError\<close>. The digests in its
  tables are the true MD5 and SHA-256 values of the listed strings (the SHA-256 digests
  written in hexadecimal). Only \<^verbatim>\<open>doc/images/locked.png\<close> cannot be written, and only
  \<^verbatim>\<open>pics/local.png\<close> can be read.
\<close>

definition table_get :: "(string \<times> 'a) list \<Rightarrow> 'a \<Rightarrow> string \<Rightarrow> 'a" where
  "table_get t dflt k = (case map_of t k of None \<Rightarrow> dflt | Some v \<Rightarrow> v)"

definition png :: "string \<Rightarrow> bytes \<Rightarrow> response" where
  "png u c =
     \<lparr> url = u, status_code = 200, headers = [(''Content-Type'', ''image/png'')], content = c \<rparr>"

definition demo_net :: "string \<Rightarrow> exn + response" where
  "demo_net =
     table_get
       [(''http://a.com/x.png'', Inr (png ''http://a.com/x.png'' ''AAA'')),
        (''http://b.com/x.png'', Inr (png ''http://b.com/x.png'' ''BBB'')),
        (''http://c.com/y.png'', Inr (png ''http://c.com/y.png'' ''BBB'')),
        (''http://c.com/x.png'', Inr (png ''http://c.com/x.png'' ''CCC'')),
        (''http://d.com/aa2e328828517d5bfe0c448047eabc31_x.png'',
           Inr (png ''http://d.com/aa2e328828517d5bfe0c448047eabc31_x.png'' ''DDD'')),
        (''http://a.com/'',
           Inr \<lparr> url = ''http://a.com/'', status_code = 200,
                 headers = [(''Content-Type'', ''image/png''),
                            (''Content-Disposition'', ''attachment; filename=pic.png'')],
                 content = ''EEE'' \<rparr>),
        (''http://e.com/missing.png'',
           Inr ((png ''http://e.com/missing.png'' [])\<lparr>status_code := 404\<rparr>)),
        (''http://site.org/locked.png'', Inr (png ''http://site.org/locked.png'' ''FFF'')),
        (''http://site.org/a.png'', Inr (png ''http://site.org/a.png'' ''GGG''))]
       (Inl ConnectionError)"

definition demo_world :: world where
  "demo_world =
     \<lparr> requests_get = (\<lambda>u verify t. if t \<le> 0 then Inl ValueError else demo_net u),
       guess_extension = table_get [(''image/png'', Some ''.png'')] None,
       nfkd_ascii = (\<lambda>s. s),
       sha256_digest =
         table_get
           [(''AAA'', ''cb1ad2119d8fafb69566510ee712661f9f14b83385006ef92aec47f523a38358''),
            (''BBB'', ''dcdb704109a454784b81229d2b05f368692e758bfa33cb61d04c1b93791b0273'')] [],
       md5_hexdigest =
         table_get
           [(''http://a.com/x.png'', ''82466494bd1a1b826b7d1df349fa5cfc''),
            (''http://b.com/x.png'', ''5ed3e12035efe5c75f34f7c17a21bb14''),
            (''http://c.com/x.png'', ''aa2e328828517d5bfe0c448047eabc31'')] [],
       makedirs = (\<lambda>p. None),
       open_write = (\<lambda>p data. if p = ''doc/images/locked.png'' then Some PermissionError else None),
       open_read = table_get [(''pics/local.png'', Inr ''LLL'')] (Inl FileNotFoundError),
       is_url = (\<lambda>s. startswith s ''http://'' \<or> startswith s ''https://''),
       download_from_url =
         (\<lambda>u t. case t of None \<Rightarrow> demo_net u
                 | Some x \<Rightarrow> if x \<le> 0 then Inl ValueError else demo_net u),
       www_get_filename_from_url =
         (\<lambda>r. Inr (Some (rev (takeWhile (\<lambda>x. x \<noteq> CHR ''/'') (rev (url r)))))) \<rparr>"

text \<open>The legacy downloader for \<^verbatim>\<open>doc/article.md\<close>, with the script's defaults but
  for a timeout of ten seconds, and the packaged one with its defaults.\<close>

definition demo_legacy :: legacy_downloader where
  "demo_legacy = legacy_init ''doc/article.md'' None False ''images'' [] 10 False"

definition demo_downloader :: "unit downloader" where
  "demo_downloader =
     init (Path ''doc/article.md'') [] None False (Path ''images'') None (-1) None False"

section \<open>Evaluation and basic facts\<close>

lemmas py_eval =
  startswith_def endswith_def dict_keys_def setdefault_def dict_get_def rsplit1_def py_index_def
  splitext_def rfind_def strip_def lower_def lower_char_def is_space_def is_word_char_def
  header_get_def str_of_opt_def partition_head_def path_join_def dirname_def str_or_def Let_def

lemmas legacy_eval =
  legacy_download_images_def legacy_run_def legacy_initial_state_def legacy_init_def
  legacy_step_def legacy_store_def legacy_download_image_def legacy_write_image_def l_emit_def
  get_filename_from_url_def check_status_def is_allowed_url_prefix_def allowed_url_prefixes_def
  slugify_def is_dash_space_def

lemmas packaged_eval =
  download_images_def run_def initial_state_def init_def step_def obtain_image_def store_def
  save_def get_remote_image_def get_local_image_def write_image_def emit_def
  get_document_img_path_def Path_def path_div_def path_div_path_def parts_def path_name_def
  path_parent_def path_str_def

lemmas demo_eval = demo_world_def demo_net_def demo_legacy_def demo_downloader_def table_get_def png_def

lemma loop_append:
  "loop w d n i st (xs @ ys) =
     (case loop w d n i st xs of Inl e \<Rightarrow> Inl e | Inr st' \<Rightarrow> loop w d n (i + length xs) st' ys)"
  by (induction xs arbitrary: i st) (auto split: sum.splits)

lemma legacy_loop_append:
  "legacy_loop w d n i st (xs @ ys) =
     (case legacy_loop w d n i st xs of Inl e \<Rightarrow> Inl e
      | Inr st' \<Rightarrow> legacy_loop w d n (i + length xs) st' ys)"
  by (induction xs arbitrary: i st) (auto split: sum.splits)

lemma step_assert:
  "u \<in> set (dict_keys (replacement_mapping st)) \<Longrightarrow> step w d n i st u = Inl (AssertionError u)"
  by (simp add: step_def)

lemma legacy_step_assert:
  "u \<in> set (dict_keys (l_replacement_mapping st)) \<Longrightarrow> legacy_step w d n i st u = Inl (AssertionError u)"
  by (simp add: legacy_step_def)

lemma run_eq_loop:
  "makedirs w (path_str (images_dir d)) = None \<or> makedirs w (path_str (images_dir d)) = Some FileExistsError
   \<Longrightarrow> run w d ds images = loop w d (length images) 0 (initial_state d ds) images"
  by (auto simp: run_def)

lemma legacy_run_eq_loop:
  "makedirs w (l_images_dir d) = None \<or> makedirs w (l_images_dir d) = Some FileExistsError
   \<Longrightarrow> legacy_run w d images = legacy_loop w d (length images) 0 (legacy_initial_state d) images"
  by (auto simp: legacy_run_def)

lemma emit_fields [simp]:
  "replacement_mapping (emit es st) = replacement_mapping st"
  "dedup_state (emit es st) = dedup_state st"
  "trace (emit es st) = trace st @ es"
  by (simp_all add: emit_def)

lemma l_emit_fields [simp]:
  "l_replacement_mapping (l_emit es st) = l_replacement_mapping st"
  "l_hash_to_path_mapping (l_emit es st) = l_hash_to_path_mapping st"
  "l_trace (l_emit es st) = l_trace st @ es"
  by (simp_all add: l_emit_def)

section \<open>A reference that is met twice\<close>

text \<open>
  Claim C6, as amended. The assertion at the head of the loop looks the reference up among
  the keys of the mapping. So a reference that the run has recorded in the mapping (under
  that very string) and that comes again in the list ends the run with an
  \<^verbatim>\<open>AssertionError\<close> at its second occurrence, before the skip list and anything
  else is looked at. The flag \<open>skip_all_errors\<close> plays no part: the statement holds for
  both of its values, in the packaged variant and in the legacy script.
\<close>

theorem repeated_key_is_fatal:
  "((makedirs w (path_str (images_dir d)) = None \<or>
       makedirs w (path_str (images_dir d)) = Some FileExistsError) \<and>
    (\<exists>st. loop w d (length (pre @ u # rest)) 0 (initial_state d ds) pre = Inr st \<and>
          u \<in> set (dict_keys (replacement_mapping st)))
    \<longrightarrow> download_images w d ds (pre @ u # rest) = Inl (AssertionError u))
   \<and>
   ((makedirs w (l_images_dir ld) = None \<or> makedirs w (l_images_dir ld) = Some FileExistsError) \<and>
    (\<exists>st. legacy_loop w ld (length (pre @ u # rest)) 0 (legacy_initial_state ld) pre = Inr st \<and>
          u \<in> set (dict_keys (l_replacement_mapping st)))
    \<longrightarrow> legacy_download_images w ld (pre @ u # rest) = Inl (AssertionError u))"
proof (intro conjI impI)
  assume a: "(makedirs w (path_str (images_dir d)) = None \<or>
       makedirs w (path_str (images_dir d)) = Some FileExistsError) \<and>
    (\<exists>st. loop w d (length (pre @ u # rest)) 0 (initial_state d ds) pre = Inr st \<and>
          u \<in> set (dict_keys (replacement_mapping st)))"
  then obtain st where "loop w d (length (pre @ u # rest)) 0 (initial_state d ds) pre = Inr st"
    "u \<in> set (dict_keys (replacement_mapping st))" by blast
  then have "loop w d (length (pre @ u # rest)) 0 (initial_state d ds) (pre @ u # rest) = Inl (AssertionError u)"
    by (simp add: loop_append step_assert)
  with a show "download_images w d ds (pre @ u # rest) = Inl (AssertionError u)"
    using run_eq_loop [of w d ds "pre @ u # rest"] by (simp add: download_images_def)
next
  assume a: "(makedirs w (l_images_dir ld) = None \<or> makedirs w (l_images_dir ld) = Some FileExistsError) \<and>
    (\<exists>st. legacy_loop w ld (length (pre @ u # rest)) 0 (legacy_initial_state ld) pre = Inr st \<and>
          u \<in> set (dict_keys (l_replacement_mapping st)))"
  then obtain st where "legacy_loop w ld (length (pre @ u # rest)) 0 (legacy_initial_state ld) pre = Inr st"
    "u \<in> set (dict_keys (l_replacement_mapping st))" by blast
  then have "legacy_loop w ld (length (pre @ u # rest)) 0 (legacy_initial_state ld) (pre @ u # rest) = Inl (AssertionError u)"
    by (simp add: legacy_loop_append legacy_step_assert)
  with a show "legacy_download_images w ld (pre @ u # rest) = Inl (AssertionError u)"
    using legacy_run_eq_loop [of w ld "pre @ u # rest"] by (simp add: legacy_download_images_def)
qed

text \<open>The theorem at work: the same URL twice, fetched and recorded the first time,
  with \<open>skip_all_errors\<close> set.\<close>

theorem repeated_key_is_fatal_witness:
  "download_images demo_world (demo_downloader\<lparr>skip_all_errors := True\<rparr>) ()
       ([''http://a.com/x.png''] @ ''http://a.com/x.png'' # [''http://b.com/x.png''])
     = Inl (AssertionError ''http://a.com/x.png'')
   \<and> legacy_download_images demo_world (demo_legacy\<lparr>l_skip_all_errors := True\<rparr>)
       ([''http://a.com/x.png''] @ ''http://a.com/x.png'' # [''http://b.com/x.png''])
     = Inl (AssertionError ''http://a.com/x.png'')"
proof -
  have n: "makedirs demo_world p = None" for p
    by (simp add: demo_world_def)
  have 1: "\<exists>st. loop demo_world (demo_downloader\<lparr>skip_all_errors := True\<rparr>)
             (length ([''http://a.com/x.png''] @ ''http://a.com/x.png'' # [''http://b.com/x.png''])) 0
             (initial_state (demo_downloader\<lparr>skip_all_errors := True\<rparr>) ()) [''http://a.com/x.png''] = Inr st \<and>
          ''http://a.com/x.png'' \<in> set (dict_keys (replacement_mapping st))"
    by (simp add: py_eval packaged_eval demo_eval)
  have 2: "\<exists>st. legacy_loop demo_world (demo_legacy\<lparr>l_skip_all_errors := True\<rparr>)
             (length ([''http://a.com/x.png''] @ ''http://a.com/x.png'' # [''http://b.com/x.png''])) 0
             (legacy_initial_state (demo_legacy\<lparr>l_skip_all_errors := True\<rparr>)) [''http://a.com/x.png''] = Inr st \<and>
          ''http://a.com/x.png'' \<in> set (dict_keys (l_replacement_mapping st))"
    by (simp add: py_eval legacy_eval demo_eval)
  show ?thesis
    using repeated_key_is_fatal [of demo_world "demo_downloader\<lparr>skip_all_errors := True\<rparr>"
        "[''http://a.com/x.png'']" "''http://a.com/x.png''" "[''http://b.com/x.png'']" "()"
        "demo_legacy\<lparr>l_skip_all_errors := True\<rparr>"] n 1 2
    by blast
qed

text \<open>
  A reference that was met before but left no entry under its own string is not caught:
  a local path while local images are off and no base URL is set, or a URL whose fetch
  fails while \<open>skip_all_errors\<close> is set, may come twice, and the run returns a mapping.
\<close>

theorem repeated_reference_counterexample:
  "download_images demo_world demo_downloader () [''a.png'', ''a.png''] = Inr []
   \<and> legacy_download_images demo_world (demo_legacy\<lparr>l_skip_all_errors := True\<rparr>)
        [''http://e.com/missing.png'', ''http://e.com/missing.png''] = Inr []"
  by (simp add: py_eval packaged_eval legacy_eval demo_eval)

section \<open>A fetch or a read that fails\<close>


lemma step_reaches_obtain_image:
  assumes "u \<notin> set (dict_keys (replacement_mapping st))" and "u \<notin> set (skip_list d)"
    and "is_url w u \<or> process_local_images d \<or> article_base_url d \<noteq> []"
  shows "step w d n i st u =
      obtain_image w d n i
        (if \<not> is_url w u \<and> \<not> process_local_images d
         then emit [Log WARNING (Has_incorrect_url (i + 1) u),
                    Log DEBUG (Trying_base_url (article_base_url d))] st
         else st)
        (if \<not> is_url w u \<and> \<not> process_local_images d then article_base_url d @ ''/'' @ u else u)
        (is_url w u)"
  using assms by (cases "is_url w u"; cases "process_local_images d"; simp add: step_def)





section \<open>A write that fails\<close>

lemma save_write_failure:
  assumes "open_write w (path_str (path_div (images_dir d)
             (fst (correct_paths w d (replacement_mapping st) (get_document_img_path d f) u f)))) c = Some e"
  shows "save w d st u (Some f) c = Inl e"
  using assms by (auto simp: save_def write_image_def Let_def split: prod.splits)

lemma step_write_failure:
  assumes "u \<notin> set (dict_keys (replacement_mapping st))" and "u \<notin> set (skip_list d)"
    and "is_url w u \<or> process_local_images d \<or> article_base_url d \<noteq> []"
    and "u' = (if \<not> is_url w u \<and> \<not> process_local_images d then article_base_url d @ ''/'' @ u else u)"
    and "fst (if is_url w u then get_remote_image w d u' i n else get_local_image w (Path u')) = Inr (fname, c)"
    and "(deduplicator d = None \<and> fname = Some f \<and> m = replacement_mapping st)
         \<or> (\<exists>dd ds. deduplicator d = Some dd
               \<and> dd (dedup_state st) u' fname c (replacement_mapping st) = Inr (True, Some f, ds, m))"
    and "open_write w (path_str (path_div (images_dir d)
             (fst (correct_paths w d m (get_document_img_path d f) u' f)))) c = Some e"
  shows "step w d n i st u = Inl e"
proof -
  obtain r effs where a0: "(if is_url w u then get_remote_image w d u' i n else get_local_image w (Path u')) = (r, effs)"
    by (cases "if is_url w u then get_remote_image w d u' i n else get_local_image w (Path u')") simp
  with assms(5) have a: "(if is_url w u then get_remote_image w d u' i n else get_local_image w (Path u')) = (Inr (fname, c), effs)"
    by simp
  have s: "step w d n i st u =
      obtain_image w d n i
        (if \<not> is_url w u \<and> \<not> process_local_images d
         then emit [Log WARNING (Has_incorrect_url (i + 1) u), Log DEBUG (Trying_base_url (article_base_url d))] st
         else st) u' (is_url w u)"
    using assms(1-4) by (cases "is_url w u"; cases "process_local_images d"; simp add: step_def)
  have o: "obtain_image w d n i st0 u' (is_url w u) = store w d (emit effs st0) u' fname c" for st0
    using a by (simp add: obtain_image_def)
  have t: "store w d st1 u' fname c = Inl e"
    if "replacement_mapping st1 = replacement_mapping st" "dedup_state st1 = dedup_state st" for st1
    using assms(6)
  proof
    assume "deduplicator d = None \<and> fname = Some f \<and> m = replacement_mapping st"
    then show ?thesis
      using assms(7) that by (simp add: store_def save_write_failure)
  next
    assume "\<exists>dd ds. deduplicator d = Some dd
               \<and> dd (dedup_state st) u' fname c (replacement_mapping st) = Inr (True, Some f, ds, m)"
    then obtain dd ds where "deduplicator d = Some dd"
      "dd (dedup_state st) u' fname c (replacement_mapping st) = Inr (True, Some f, ds, m)" by blast
    then show ?thesis
      using assms(7) that by (simp add: store_def save_write_failure)
  qed
  show ?thesis
    by (simp add: s o t)
qed

lemma legacy_step_write_failure:
  assumes "u \<notin> set (dict_keys (l_replacement_mapping st))" and "u \<notin> set (l_skip_list d)"
    and "is_allowed_url_prefix u"
    and "fst (legacy_download_image w d u) = Inr resp"
    and "get_filename_from_url w resp = Inr (Some f)"
    and "\<not> l_deduplication d \<or> dict_get (l_hash_to_path_mapping st) (sha256_digest w (content resp)) = None"
    and "open_write w (path_join (l_images_dir d)
             (fst (legacy_correct_paths w d (l_replacement_mapping st)
                (path_join (str_or (l_img_public_path d) (l_img_dir_name d)) f) u f))) (content resp) = Some e"
  shows "legacy_step w d n i st u = Inl e"
proof -
  obtain r effs where a0: "legacy_download_image w d u = (r, effs)"
    by (cases "legacy_download_image w d u") simp
  with assms(4) have a: "legacy_download_image w d u = (Inr resp, effs)" by simp
  have "legacy_store w d st1 u (Some f) (content resp) = Inl e"
    if "l_replacement_mapping st1 = l_replacement_mapping st"
       "l_hash_to_path_mapping st1 = l_hash_to_path_mapping st" for st1
    using assms(6,7) that
    by (auto simp: legacy_store_def legacy_write_image_def Let_def split: prod.splits)
  then show ?thesis
    using assms(1-3,5) a by (simp add: legacy_step_def)
qed

text \<open>
  Claim C9. Let the run have reached the reference \<open>u\<close>, let its content \<open>c\<close> have been
  obtained, and let the turn come to the write: there is no deduplicator (or, in the
  packaged variant, it answers true; in the legacy script, the digest is new). If writing
  \<open>c\<close> to the real path raises \<open>e\<close>, the run ends with \<open>e\<close> and returns no mapping.
  The statement does not mention \<open>skip_all_errors\<close>: it holds for both values.
\<close>

theorem write_failure_aborts:
  "((makedirs w (path_str (images_dir d)) = None \<or>
       makedirs w (path_str (images_dir d)) = Some FileExistsError) \<and>
    loop w d (length (pre @ u # rest)) 0 (initial_state d ds) pre = Inr st \<and>
    u \<notin> set (dict_keys (replacement_mapping st)) \<and> u \<notin> set (skip_list d) \<and>
    (is_url w u \<or> process_local_images d \<or> article_base_url d \<noteq> []) \<and>
    u' = (if \<not> is_url w u \<and> \<not> process_local_images d
          then article_base_url d @ ''/'' @ u else u) \<and>
    fst (if is_url w u then get_remote_image w d u' (length pre) (length (pre @ u # rest))
         else get_local_image w (Path u')) = Inr (fname, c) \<and>
    ((deduplicator d = None \<and> fname = Some f \<and> m = replacement_mapping st) \<or>
     (\<exists>dd ds'. deduplicator d = Some dd \<and>
         dd (dedup_state st) u' fname c (replacement_mapping st) = Inr (True, Some f, ds', m))) \<and>
    open_write w (path_str (path_div (images_dir d)
       (fst (correct_paths w d m (get_document_img_path d f) u' f)))) c = Some e
    \<longrightarrow> download_images w d ds (pre @ u # rest) = Inl e)
   \<and>
   ((makedirs w (l_images_dir ld) = None \<or> makedirs w (l_images_dir ld) = Some FileExistsError) \<and>
    legacy_loop w ld (length (pre @ u # rest)) 0 (legacy_initial_state ld) pre = Inr lst \<and>
    u \<notin> set (dict_keys (l_replacement_mapping lst)) \<and> u \<notin> set (l_skip_list ld) \<and>
    is_allowed_url_prefix u \<and>
    fst (legacy_download_image w ld u) = Inr resp \<and>
    get_filename_from_url w resp = Inr (Some lf) \<and>
    (\<not> l_deduplication ld \<or>
     dict_get (l_hash_to_path_mapping lst) (sha256_digest w (content resp)) = None) \<and>
    open_write w (path_join (l_images_dir ld)
       (fst (legacy_correct_paths w ld (l_replacement_mapping lst)
               (path_join (str_or (l_img_public_path ld) (l_img_dir_name ld)) lf) u lf)))
       (content resp) = Some e
    \<longrightarrow> legacy_download_images w ld (pre @ u # rest) = Inl e)"
proof (intro conjI impI; elim conjE)
  assume mk: "makedirs w (path_str (images_dir d)) = None \<or>
       makedirs w (path_str (images_dir d)) = Some FileExistsError"
    and pre: "loop w d (length (pre @ u # rest)) 0 (initial_state d ds) pre = Inr st"
    and r: "u \<notin> set (dict_keys (replacement_mapping st))" "u \<notin> set (skip_list d)"
    "is_url w u \<or> process_local_images d \<or> article_base_url d \<noteq> []"
    "u' = (if \<not> is_url w u \<and> \<not> process_local_images d
          then article_base_url d @ ''/'' @ u else u)"
    "fst (if is_url w u then get_remote_image w d u' (length pre) (length (pre @ u # rest))
         else get_local_image w (Path u')) = Inr (fname, c)"
    "(deduplicator d = None \<and> fname = Some f \<and> m = replacement_mapping st) \<or>
     (\<exists>dd ds'. deduplicator d = Some dd \<and>
         dd (dedup_state st) u' fname c (replacement_mapping st) = Inr (True, Some f, ds', m))"
    "open_write w (path_str (path_div (images_dir d)
       (fst (correct_paths w d m (get_document_img_path d f) u' f)))) c = Some e"
  define n where "n = length (pre @ u # rest)"
  have "step w d n (length pre) st u = Inl e"
    using r unfolding n_def [symmetric] by (rule step_write_failure)
  then have "loop w d n 0 (initial_state d ds) (pre @ u # rest) = Inl e"
    unfolding loop_append pre [folded n_def] by simp
  then show "download_images w d ds (pre @ u # rest) = Inl e"
    unfolding download_images_def run_eq_loop [OF mk] n_def by simp
next
  assume mk: "makedirs w (l_images_dir ld) = None \<or> makedirs w (l_images_dir ld) = Some FileExistsError"
    and pre: "legacy_loop w ld (length (pre @ u # rest)) 0 (legacy_initial_state ld) pre = Inr lst"
    and r: "u \<notin> set (dict_keys (l_replacement_mapping lst))" "u \<notin> set (l_skip_list ld)"
    "is_allowed_url_prefix u"
    "fst (legacy_download_image w ld u) = Inr resp"
    "get_filename_from_url w resp = Inr (Some lf)"
    "\<not> l_deduplication ld \<or>
     dict_get (l_hash_to_path_mapping lst) (sha256_digest w (content resp)) = None"
    "open_write w (path_join (l_images_dir ld)
       (fst (legacy_correct_paths w ld (l_replacement_mapping lst)
               (path_join (str_or (l_img_public_path ld) (l_img_dir_name ld)) lf) u lf)))
       (content resp) = Some e"
  define n where "n = length (pre @ u # rest)"
  have "legacy_step w ld n (length pre) lst u = Inl e"
    using r by (rule legacy_step_write_failure)
  then have "legacy_loop w ld n 0 (legacy_initial_state ld) (pre @ u # rest) = Inl e"
    unfolding legacy_loop_append pre [folded n_def] by simp
  then show "legacy_download_images w ld (pre @ u # rest) = Inl e"
    unfolding legacy_download_images_def legacy_run_eq_loop [OF mk] n_def by simp
qed

text \<open>The theorem at work: the one file of the concrete world that cannot be written,
  with \<open>skip_all_errors\<close> set.\<close>

theorem write_failure_aborts_witness:
  "download_images demo_world (demo_downloader\<lparr>skip_all_errors := True\<rparr>) ()
       ([] @ ''http://site.org/locked.png'' # [''http://a.com/x.png'']) = Inl PermissionError
   \<and> legacy_download_images demo_world (demo_legacy\<lparr>l_skip_all_errors := True\<rparr>)
       ([] @ ''http://site.org/locked.png'' # [''http://a.com/x.png'']) = Inl PermissionError"
proof (intro conjI)
  show "download_images demo_world (demo_downloader\<lparr>skip_all_errors := True\<rparr>) ()
       ([] @ ''http://site.org/locked.png'' # [''http://a.com/x.png'']) = Inl PermissionError"
    using write_failure_aborts [where w = demo_world
        and d = "demo_downloader\<lparr>skip_all_errors := True\<rparr>" and ds = "()"
        and pre = "[]" and u = "''http://site.org/locked.png''" and rest = "[''http://a.com/x.png'']"
        and st = "initial_state (demo_downloader\<lparr>skip_all_errors := True\<rparr>) ()"
        and u' = "''http://site.org/locked.png''"
        and fname = "Some ''locked.png''" and f = "''locked.png''" and c = "''FFF''"
        and m = "[]" and e = PermissionError, THEN conjunct1]
    by (simp add: py_eval packaged_eval demo_eval)
  show "legacy_download_images demo_world (demo_legacy\<lparr>l_skip_all_errors := True\<rparr>)
       ([] @ ''http://site.org/locked.png'' # [''http://a.com/x.png'']) = Inl PermissionError"
    using write_failure_aborts [where w = demo_world
        and ld = "demo_legacy\<lparr>l_skip_all_errors := True\<rparr>"
        and pre = "[]" and u = "''http://site.org/locked.png''" and rest = "[''http://a.com/x.png'']"
        and lst = "legacy_initial_state (demo_legacy\<lparr>l_skip_all_errors := True\<rparr>)"
        and resp = "png ''http://site.org/locked.png'' ''FFF''" and lf = "''locked.png''"
        and e = PermissionError, THEN conjunct2]
    by (simp add: py_eval legacy_eval demo_eval)
qed

section \<open>The URL test of the legacy script\<close>




lemma legacy_write_image_fields:
  "legacy_write_image w p c st = Inr st' \<Longrightarrow>
     l_replacement_mapping st' = l_replacement_mapping st \<and>
     l_hash_to_path_mapping st' = l_hash_to_path_mapping st \<and>
     l_trace st' = l_trace st @ [Log STDOUT (Will_be_written p), Write_file p c]"
  by (auto simp: legacy_write_image_def split: option.splits)










section \<open>The file name of a fetched response, legacy script\<close>

text \<open>The test \<^verbatim>\<open>req.url.find('/')\<close> is true for every index but 0, also for the
  \<open>-1\<close> of a URL without a slash. So whenever the first slash is not the first
  character, the headers matter through the content type alone.\<close>

lemma get_filename_from_url_headers:
  assumes "str_find (url req) CHR ''/'' \<noteq> 0"
    and "header_get hs ''content-type'' = header_get (headers req) ''content-type''"
  shows "get_filename_from_url w (req\<lparr>headers := hs\<rparr>) = get_filename_from_url w req"
  using assms by (simp add: get_filename_from_url_def split: sum.splits option.splits prod.splits)

text \<open>
  Claim C8 reads: a resolved URL that yields no usable last segment makes the deriver fall
  back to the file name of the content-disposition header, and a URL that yields one
  never consults the header. The code does neither. For \<^verbatim>\<open>http://a.com/\<close>, whose
  last segment is empty, the header \<^verbatim>\<open>filename=pic.png\<close> is ignored and the name is
  the bare extension guessed from the content type; a URL without any slash raises
  \<^verbatim>\<open>IndexError\<close>; and \<^verbatim>\<open>/x.png\<close>, which has a last segment, is named after the
  header.
\<close>

theorem filename_from_url_no_fallback:
  "get_filename_from_url demo_world
     \<lparr> url = ''http://a.com/'', status_code = 200,
       headers = [(''Content-Type'', ''image/png''),
                  (''Content-Disposition'', ''attachment; filename=pic.png'')],
       content = ''EEE'' \<rparr> = Inr (Some ''.png'')
   \<and> get_filename_from_url demo_world
     \<lparr> url = ''a.com'', status_code = 200,
       headers = [(''Content-Type'', ''image/png''),
                  (''Content-Disposition'', ''attachment; filename=pic.png'')],
       content = ''EEE'' \<rparr> = Inl IndexError
   \<and> get_filename_from_url demo_world
     \<lparr> url = ''/x.png'', status_code = 200,
       headers = [(''Content-Type'', ''image/png''),
                  (''Content-Disposition'', ''attachment; filename=pic.png'')],
       content = ''EEE'' \<rparr> = Inr (Some ''pic.png'')"
  by (simp add: py_eval legacy_eval demo_eval newline_def)

section \<open>A local reference while local images are off\<close>

lemma step_local_with_base_url:
  assumes "u \<notin> set (dict_keys (replacement_mapping st))" and "u \<notin> set (skip_list d)"
    and "\<not> is_url w u" and "\<not> process_local_images d" and "article_base_url d \<noteq> []"
  shows "step w d n i st u =
     (let st1 = emit [Log WARNING (Has_incorrect_url (i + 1) u),
                      Log DEBUG (Trying_base_url (article_base_url d)),
                      Read_file (path_str (Path (article_base_url d @ ''/'' @ u)))] st
      in case open_read w (path_str (Path (article_base_url d @ ''/'' @ u))) of
           Inl e \<Rightarrow>
             if is_Exception e \<and> skip_all_errors d
             then Inr (emit [Log WARNING (Cannot_get_continuing (i + 1) e)] st1)
             else Inl e
         | Inr image_content \<Rightarrow>
             store w d st1 (article_base_url d @ ''/'' @ u)
               (Some (path_name (Path (article_base_url d @ ''/'' @ u)))) image_content)"
  using assms
  by (simp add: step_def obtain_image_def get_local_image_def emit_def Let_def split: sum.splits)

lemma step_local_without_base_url:
  assumes "u \<notin> set (dict_keys (replacement_mapping st))" and "u \<notin> set (skip_list d)"
    and "\<not> is_url w u" and "\<not> process_local_images d" and "article_base_url d = []"
  shows "step w d n i st u =
     Inr (emit [Log WARNING (Has_incorrect_url (i + 1) u), Log INFO Downloading_will_be_skipped] st)"
  using assms by (simp add: step_def)

text \<open>
  Claim C5 reads: a local reference, while local images are off, is rewritten with the
  base URL and then fetched as a remote image; without a base URL it is skipped with a
  warning. The second half is \<open>step_local_without_base_url\<close>. The first half is not what
  the code does (\<open>step_local_with_base_url\<close>): the rewritten string is opened as a local
  file. In the concrete world the URL \<^verbatim>\<open>http://site.org/a.png\<close> can be downloaded, yet
  the run for the reference \<^verbatim>\<open>a.png\<close> with the base URL \<^verbatim>\<open>http://site.org\<close> ends
  with \<^verbatim>\<open>FileNotFoundError\<close>, and its trace holds a read of
  \<^verbatim>\<open>http:/site.org/a.png\<close> and no download.
\<close>

theorem base_url_reference_is_read_locally:
  "download_from_url demo_world ''http://site.org/a.png'' None =
     Inr (png ''http://site.org/a.png'' ''GGG'')
   \<and> download_images demo_world (demo_downloader\<lparr>article_base_url := ''http://site.org''\<rparr>) ()
       [''a.png''] = Inl FileNotFoundError
   \<and> map_sum id trace
       (run demo_world
          (demo_downloader\<lparr>article_base_url := ''http://site.org'', skip_all_errors := True\<rparr>) ()
          [''a.png'']) =
     Inr [Makedirs ''doc/images'',
          Log WARNING (Has_incorrect_url 1 ''a.png''),
          Log DEBUG (Trying_base_url ''http://site.org''),
          Read_file ''http:/site.org/a.png'',
          Log WARNING (Cannot_get_continuing 1 FileNotFoundError)]"
  by (simp add: py_eval packaged_eval demo_eval)

section \<open>The timeout of a fetch\<close>

text \<open>The packaged variant hands the transport \<^verbatim>\<open>None\<close> for a timeout that is not
  positive, and the timeout itself otherwise.\<close>

lemma packaged_timeout_passed:
  "snd (get_remote_image w (init a b s e dn pp t dd pl) u i n) =
     [Log INFO (Downloading (i + 1) n u), Download_from_url u (if 0 < t then Some t else None)]"
  by (simp add: get_remote_image_def init_def)

text \<open>
  Claim C7 reads: a timeout that is not positive means an unbounded wait, the value
  handed to the transport call denoting an infinite wait and not an error. The legacy
  script hands the configured number to \<^verbatim>\<open>requests.get\<close> as it is, for every \<open>t\<close>.
  With the script's default of \<open>-1\<close>, in a world whose transport refuses such a timeout
  as \<^verbatim>\<open>requests\<close> does, every fetch fails: the run ends with \<^verbatim>\<open>ValueError\<close>, or
  skips every image when \<open>skip_all_errors\<close> is set.
\<close>

theorem legacy_timeout_passed_unchanged:
  "hd (snd (legacy_download_image w (legacy_init a s e dn pp t dd) u)) = Requests_get u True t
   \<and> legacy_download_images demo_world
        (legacy_init ''doc/article.md'' None False ''images'' [] (- 1) False)
        [''http://a.com/x.png''] = Inl ValueError
   \<and> map_sum id l_trace
       (legacy_run demo_world (legacy_init ''doc/article.md'' None True ''images'' [] (- 1) False)
          [''http://a.com/x.png'']) =
     Inr [Makedirs ''doc/images'',
          Log STDOUT (Downloading 1 1 ''http://a.com/x.png''),
          Requests_get ''http://a.com/x.png'' True (- 1),
          Log STDOUT (Cannot_download_continuing 1 ValueError)]"
proof (intro conjI)
  show "hd (snd (legacy_download_image w (legacy_init a s e dn pp t dd) u)) = Requests_get u True t"
    by (simp add: legacy_download_image_def legacy_init_def split: sum.splits exn.splits)
qed (simp_all add: py_eval legacy_eval demo_eval)

section \<open>Deduplication in the legacy script\<close>

text \<open>
  Claim C2 reads: two references with the same bytes are recorded, deduplication on, with
  the same document path, under the file name given to the first of them. The legacy
  script stores the file name in its digest table before \<^verbatim>\<open>_correct_paths\<close> may
  rename it. Below, \<^verbatim>\<open>http://b.com/x.png\<close> and \<^verbatim>\<open>http://c.com/y.png\<close> carry the same
  bytes; the first is renamed because \<^verbatim>\<open>http://a.com/x.png\<close> holds \<^verbatim>\<open>x.png\<close>
  already, and the second is recorded under \<^verbatim>\<open>images/x.png\<close>: another path than the
  first, and the file of another image.
\<close>

theorem legacy_dedup_after_rename:
  "legacy_download_images demo_world (demo_legacy\<lparr>l_deduplication := True\<rparr>)
       [''http://a.com/x.png'', ''http://b.com/x.png'', ''http://c.com/y.png''] =
     Inr [(''http://a.com/x.png'', ''images/x.png''),
          (''http://b.com/x.png'', ''images/5ed3e12035efe5c75f34f7c17a21bb14_x.png''),
          (''http://c.com/y.png'', ''images/x.png'')]
   \<and> map_sum id content (demo_net ''http://b.com/x.png'') = Inr ''BBB''
   \<and> map_sum id content (demo_net ''http://c.com/y.png'') = Inr ''BBB''
   \<and> map_sum id content (demo_net ''http://a.com/x.png'') = Inr ''AAA''"
  by (simp add: py_eval legacy_eval demo_eval)

section \<open>Two references with the same file name\<close>

lemma endswith_last: "endswith a [c] \<Longrightarrow> last a = c"
proof -
  assume "endswith a [c]"
  then have d: "drop (length a - 1) a = [c]" and "1 \<le> length a"
    by (simp_all add: endswith_def)
  then have "length a - 1 < length a" by simp
  then have "last (drop (length a - 1) a) = last a" by (rule last_drop)
  with d show ?thesis by simp
qed

lemma path_join_suffix:
  "\<exists>p. path_join a b = p @ b \<and> (p = [] \<or> last p = CHR ''/'')"
proof (cases "startswith b ''/''")
  case True
  then have "path_join a b = [] @ b" by (simp add: path_join_def)
  then show ?thesis by blast
next
  case False
  show ?thesis
  proof (cases "a = [] \<or> endswith a ''/''")
    case True
    with False have "path_join a b = a @ b" by (simp add: path_join_def)
    moreover from True have "a = [] \<or> last a = CHR ''/''"
      using endswith_last [of a "CHR ''/''"] by auto
    ultimately show ?thesis by blast
  next
    case c: False
    with False have "path_join a b = (a @ ''/'') @ b" by (simp add: path_join_def)
    moreover have "last (a @ ''/'') = CHR ''/''" by simp
    ultimately show ?thesis by blast
  qed
qed

lemma path_join_renamed_differs: "path_join a f \<noteq> path_join a (h @ ''_'' @ f)"
proof
  assume eq: "path_join a f = path_join a (h @ ''_'' @ f)"
  obtain p where p: "path_join a f = p @ f" "p = [] \<or> last p = CHR ''/''"
    using path_join_suffix by blast
  obtain q where q: "path_join a (h @ ''_'' @ f) = q @ (h @ ''_'' @ f)"
    using path_join_suffix by blast
  from eq p q have "p @ f = (q @ h @ ''_'') @ f" by simp
  then have "p = q @ h @ ''_''" by (simp only: append_same_eq)
  then have "p \<noteq> []" "last p = CHR ''_''" by simp_all
  with p(2) show False by simp
qed

lemma legacy_collision_law:
  assumes mk: "makedirs w (l_images_dir d) = None \<or> makedirs w (l_images_dir d) = Some FileExistsError"
    and d: "\<not> l_deduplication d" "a \<notin> set (l_skip_list d)" "b \<notin> set (l_skip_list d)"
    and ab: "a \<noteq> b" "is_allowed_url_prefix a" "is_allowed_url_prefix b"
    and fa: "fst (legacy_download_image w d a) = Inr ra" "get_filename_from_url w ra = Inr (Some f)"
    and fb: "fst (legacy_download_image w d b) = Inr rb" "get_filename_from_url w rb = Inr (Some f)"
    and wr: "open_write w (path_join (l_images_dir d) f) (content ra) = None"
      "open_write w (path_join (l_images_dir d) (md5_hexdigest w b @ ''_'' @ f)) (content rb) = None"
  shows "legacy_download_images w d [a, b] =
           Inr [(a, path_join (str_or (l_img_public_path d) (l_img_dir_name d)) f),
                (b, path_join (str_or (l_img_public_path d) (l_img_dir_name d))
                      (md5_hexdigest w b @ ''_'' @ f))]"
    and "path_join (str_or (l_img_public_path d) (l_img_dir_name d)) f \<noteq>
         path_join (str_or (l_img_public_path d) (l_img_dir_name d)) (md5_hexdigest w b @ ''_'' @ f)"
proof -
  let ?dir = "str_or (l_img_public_path d) (l_img_dir_name d)"
  define n where "n = length [a, b]"
  obtain ea where ea: "legacy_download_image w d a = (Inr ra, ea)"
    using fa(1) by (cases "legacy_download_image w d a") simp
  obtain eb where eb: "legacy_download_image w d b = (Inr rb, eb)"
    using fb(1) by (cases "legacy_download_image w d b") simp
  have sa: "\<exists>st1. legacy_step w d n 0 (legacy_initial_state d) a = Inr st1 \<and>
              l_replacement_mapping st1 = [(a, path_join ?dir f)]"
    using d ab ea fa(2) wr(1)
    by (simp add: legacy_step_def legacy_store_def legacy_write_image_def
        legacy_initial_state_def dict_keys_def setdefault_def Let_def)
  then obtain st1 where st1: "legacy_step w d n 0 (legacy_initial_state d) a = Inr st1"
    "l_replacement_mapping st1 = [(a, path_join ?dir f)]" by blast
  have sb: "\<exists>st2. legacy_step w d n (Suc 0) st1 b = Inr st2 \<and>
              l_replacement_mapping st2 =
                [(a, path_join ?dir f), (b, path_join ?dir (md5_hexdigest w b @ ''_'' @ f))]"
    using d ab eb fb(2) wr(2) st1(2)
    by (simp add: legacy_step_def legacy_store_def legacy_write_image_def
        dict_keys_def setdefault_def Let_def)
  then obtain st2 where st2: "legacy_step w d n (Suc 0) st1 b = Inr st2"
    "l_replacement_mapping st2 =
                [(a, path_join ?dir f), (b, path_join ?dir (md5_hexdigest w b @ ''_'' @ f))]"
    by blast
  from st1 st2 have "legacy_loop w d n 0 (legacy_initial_state d) [a, b] = Inr st2"
    by simp
  then show "legacy_download_images w d [a, b] =
           Inr [(a, path_join ?dir f), (b, path_join ?dir (md5_hexdigest w b @ ''_'' @ f))]"
    unfolding legacy_download_images_def legacy_run_eq_loop [OF mk] n_def [symmetric]
    by (simp add: st2)
  show "path_join ?dir f \<noteq> path_join ?dir (md5_hexdigest w b @ ''_'' @ f)"
    by (rule path_join_renamed_differs)
qed

text \<open>\<open>legacy_collision_law\<close> is the collision law in the legacy script, where the paths
  of the mapping and the document path are strings. In the packaged variant the document
  path is a path object and the mapping holds strings, so the comparison in
  \<^verbatim>\<open>_correct_paths\<close> never holds.\<close>

lemma correct_paths_strings:
  "(\<forall>v \<in> set (dict_values m). \<exists>s. v = PyStr s) \<Longrightarrow> correct_paths w d m p u f = (f, p)"
  by (induction m) (auto simp: dict_values_def)

text \<open>
  Claim C3 reads: of two references with different content and the same derived file
  name, the second is recorded under the digest of its reference, an underscore and the
  file name, so that the two document paths differ. In the packaged variant, without a
  deduplicator, two URLs that are fetched with the same file name \<open>f\<close> are both recorded
  under the document path of \<open>f\<close>, and both are written to the same file.
\<close>

theorem packaged_collision_not_corrected:
  assumes mk: "makedirs w (path_str (images_dir d)) = None \<or>
               makedirs w (path_str (images_dir d)) = Some FileExistsError"
    and d: "deduplicator d = None" "a \<notin> set (skip_list d)" "b \<notin> set (skip_list d)"
    and ab: "a \<noteq> b" "is_url w a" "is_url w b"
    and fa: "download_from_url w a (downloading_timeout d) = Inr ra"
      "www_get_filename_from_url w ra = Inr (Some f)"
    and fb: "download_from_url w b (downloading_timeout d) = Inr rb"
      "www_get_filename_from_url w rb = Inr (Some f)"
    and wr: "open_write w (path_str (path_div (images_dir d) f)) (content ra) = None"
      "open_write w (path_str (path_div (images_dir d) f)) (content rb) = None"
  shows "download_images w d ds [a, b] =
           Inr [(a, PyStr (str_join ''/'' (parts (get_document_img_path d f)))),
                (b, PyStr (str_join ''/'' (parts (get_document_img_path d f))))]"
proof -
  let ?p = "PyStr (str_join ''/'' (parts (get_document_img_path d f)))"
  define n where "n = length [a, b]"
  define st1 where "st1 =
      emit [Log INFO (Will_be_written (path_str (path_div (images_dir d) f))),
            Write_file (path_str (path_div (images_dir d) f)) (content ra)]
        ((emit [Log INFO (Downloading (0 + 1) n a), Download_from_url a (downloading_timeout d)]
            (initial_state d ds))\<lparr>replacement_mapping := [(a, ?p)]\<rparr>)"
  have sa: "step w d n 0 (initial_state d ds) a = Inr st1"
    using d ab fa wr
    by (simp add: st1_def step_def obtain_image_def get_remote_image_def store_def save_def
        write_image_def initial_state_def dict_keys_def setdefault_def Let_def)
  have m1: "replacement_mapping st1 = [(a, ?p)]"
    by (simp add: st1_def)
  have cp: "correct_paths w d [(a, ?p)] (get_document_img_path d f) b f = (f, get_document_img_path d f)"
    by (rule correct_paths_strings) (simp add: dict_values_def)
  have sb: "\<exists>st2. step w d n (Suc 0) st1 b = Inr st2 \<and> replacement_mapping st2 = [(a, ?p), (b, ?p)]"
    using d ab fb wr cp m1
    by (simp add: step_def obtain_image_def get_remote_image_def store_def save_def
        write_image_def dict_keys_def setdefault_def Let_def)
  then obtain st2 where st2: "step w d n (Suc 0) st1 b = Inr st2"
    "replacement_mapping st2 = [(a, ?p), (b, ?p)]"
    by blast
  with sa have "loop w d n 0 (initial_state d ds) [a, b] = Inr st2"
    by simp
  then show ?thesis
    unfolding download_images_def run_eq_loop [OF mk] n_def [symmetric] by (simp add: st2)
qed

text \<open>The theorem at work: the two URLs of the scenario, with different bytes.\<close>

theorem packaged_collision_not_corrected_witness:
  "download_images demo_world demo_downloader () [''http://a.com/x.png'', ''http://b.com/x.png''] =
     Inr [(''http://a.com/x.png'', PyStr ''images/x.png''),
          (''http://b.com/x.png'', PyStr ''images/x.png'')]
   \<and> map_sum id content (download_from_url demo_world ''http://a.com/x.png'' None) = Inr ''AAA''
   \<and> map_sum id content (download_from_url demo_world ''http://b.com/x.png'' None) = Inr ''BBB''"
  using packaged_collision_not_corrected [where w = demo_world and d = demo_downloader
      and ds = "()" and a = "''http://a.com/x.png''" and b = "''http://b.com/x.png''"
      and ra = "png ''http://a.com/x.png'' ''AAA''" and rb = "png ''http://b.com/x.png'' ''BBB''"
      and f = "''x.png''"]
  by (simp add: py_eval packaged_eval demo_eval)

section \<open>The entries of the returned mapping\<close>

subsection \<open>Legacy script\<close>

lemma legacy_correct_paths_snd:
  "u \<notin> set (dict_keys m) \<Longrightarrow>
   legacy_correct_paths w d m p u f =
     (if p \<in> set (dict_values m)
      then (md5_hexdigest w u @ ''_'' @ f,
            path_join (str_or (l_img_public_path d) (l_img_dir_name d)) (md5_hexdigest w u @ ''_'' @ f))
      else (f, p))"
  by (induction m) (force simp: dict_keys_def dict_values_def)+

lemma legacy_store_plain:
  assumes "\<not> l_deduplication d" and "u \<notin> set (dict_keys (l_replacement_mapping st))"
    and "legacy_store w d st u fo c = Inr st'"
  shows "\<exists>f. fo = Some f \<and>
           l_replacement_mapping st' = l_replacement_mapping st @
             [(u, snd (legacy_correct_paths w d (l_replacement_mapping st)
                         (path_join (str_or (l_img_public_path d) (l_img_dir_name d)) f) u f))]"
  using assms
  by (auto simp: legacy_store_def Let_def setdefault_def
      split: option.splits prod.splits dest!: legacy_write_image_fields)

lemma legacy_step_plain:
  assumes "\<not> l_deduplication d" and "l_skip_list d = []"
    and "legacy_step w d n i st u = Inr st'"
  shows "if legacy_fetched w d u
         then \<exists>resp f. fst (legacy_download_image w d u) = Inr resp \<and>
                get_filename_from_url w resp = Inr (Some f) \<and>
                l_replacement_mapping st' = l_replacement_mapping st @
                  [(u, snd (legacy_correct_paths w d (l_replacement_mapping st)
                         (path_join (str_or (l_img_public_path d) (l_img_dir_name d)) f) u f))]
         else l_replacement_mapping st' = l_replacement_mapping st"
proof -
  from assms(3) have k: "u \<notin> set (dict_keys (l_replacement_mapping st))"
    by (auto simp: legacy_step_def split: if_splits)
  obtain r effs where a: "legacy_download_image w d u = (r, effs)"
    by (cases "legacy_download_image w d u") simp
  show ?thesis
  proof (cases "is_allowed_url_prefix u")
    case False
    with assms k show ?thesis
      by (auto simp: legacy_step_def legacy_fetched_def)
  next
    case True
    show ?thesis
    proof (cases r)
      case (Inl e)
      with assms k a True show ?thesis
        by (auto simp: legacy_step_def legacy_fetched_def split: if_splits)
    next
      case (Inr resp)
      with assms k a True obtain fo where
        s: "get_filename_from_url w resp = Inr fo"
           "legacy_store w d (l_emit (Log STDOUT (Downloading (i + 1) n u) # effs) st) u fo (content resp) = Inr st'"
        by (auto simp: legacy_step_def split: sum.splits)
      from legacy_store_plain [OF assms(1) _ s(2)] k s(1) a Inr True show ?thesis
        by (auto simp: legacy_fetched_def)
    qed
  qed
qed

lemma legacy_step_entry:
  assumes "\<not> l_deduplication d" and "l_skip_list d = []"
    and "legacy_step w d n i st u = Inr st'"
  shows "if legacy_fetched w d u
         then \<exists>resp f. fst (legacy_download_image w d u) = Inr resp \<and>
                get_filename_from_url w resp = Inr (Some f) \<and>
                l_replacement_mapping st' = l_replacement_mapping st @
                  [(u, if path_join (str_or (l_img_public_path d) (l_img_dir_name d)) f
                          \<in> set (dict_values (l_replacement_mapping st))
                       then path_join (str_or (l_img_public_path d) (l_img_dir_name d))
                              (md5_hexdigest w u @ ''_'' @ f)
                       else path_join (str_or (l_img_public_path d) (l_img_dir_name d)) f)]
         else l_replacement_mapping st' = l_replacement_mapping st"
proof -
  from assms(3) have k: "u \<notin> set (dict_keys (l_replacement_mapping st))"
    by (auto simp: legacy_step_def split: if_splits)
  show ?thesis
    using legacy_step_plain [OF assms] unfolding legacy_correct_paths_snd [OF k]
    by (cases "legacy_fetched w d u") (auto split: if_splits)
qed

lemma legacy_loop_entries:
  assumes "\<not> l_deduplication d" and "l_skip_list d = []"
  shows "legacy_loop w d n i st images = Inr st' \<Longrightarrow>
     \<exists>ms. l_replacement_mapping st' = l_replacement_mapping st @ ms \<and>
          map fst ms = filter (legacy_fetched w d) images \<and>
          (\<forall>m1 u v m2. ms = m1 @ (u, v) # m2 \<longrightarrow>
             (\<exists>resp f. fst (legacy_download_image w d u) = Inr resp \<and>
                get_filename_from_url w resp = Inr (Some f) \<and>
                v = (if path_join (str_or (l_img_public_path d) (l_img_dir_name d)) f
                          \<in> set (dict_values (l_replacement_mapping st @ m1))
                     then path_join (str_or (l_img_public_path d) (l_img_dir_name d))
                              (md5_hexdigest w u @ ''_'' @ f)
                     else path_join (str_or (l_img_public_path d) (l_img_dir_name d)) f)))"
proof (induction images arbitrary: i st)
  case Nil
  then show ?case by simp
next
  case (Cons a images)
  let ?dir = "str_or (l_img_public_path d) (l_img_dir_name d)"
  from Cons.prems obtain st1 where s: "legacy_step w d n i st a = Inr st1"
    and l: "legacy_loop w d n (Suc i) st1 images = Inr st'"
    by (auto split: sum.splits)
  from Cons.IH [OF l] obtain ms where ms:
    "l_replacement_mapping st' = l_replacement_mapping st1 @ ms"
    "map fst ms = filter (legacy_fetched w d) images"
    "\<And>m1 u v m2. ms = m1 @ (u, v) # m2 \<Longrightarrow>
             (\<exists>resp f. fst (legacy_download_image w d u) = Inr resp \<and>
                get_filename_from_url w resp = Inr (Some f) \<and>
                v = (if path_join ?dir f \<in> set (dict_values (l_replacement_mapping st1 @ m1))
                     then path_join ?dir (md5_hexdigest w u @ ''_'' @ f)
                     else path_join ?dir f))"
    by blast
  note e = legacy_step_entry [OF assms s]
  show ?case
  proof (cases "legacy_fetched w d a")
    case False
    with e have eq: "l_replacement_mapping st1 = l_replacement_mapping st" by simp
    have "l_replacement_mapping st' = l_replacement_mapping st @ ms"
      using ms(1) eq by simp
    moreover have "map fst ms = filter (legacy_fetched w d) (a # images)"
      using ms(2) False by simp
    ultimately show ?thesis
      using ms(3) unfolding eq by blast
  next
    case True
    with e obtain resp f where rf: "fst (legacy_download_image w d a) = Inr resp"
      "get_filename_from_url w resp = Inr (Some f)"
      and m1: "l_replacement_mapping st1 = l_replacement_mapping st @
                  [(a, if path_join ?dir f \<in> set (dict_values (l_replacement_mapping st))
                       then path_join ?dir (md5_hexdigest w a @ ''_'' @ f)
                       else path_join ?dir f)]"
      by auto
    define va where "va = (if path_join ?dir f \<in> set (dict_values (l_replacement_mapping st))
                       then path_join ?dir (md5_hexdigest w a @ ''_'' @ f)
                       else path_join ?dir f)"
    have "l_replacement_mapping st' = l_replacement_mapping st @ ((a, va) # ms)"
      using ms(1) m1 by (simp add: va_def)
    moreover have "map fst ((a, va) # ms) = filter (legacy_fetched w d) (a # images)"
      using ms(2) True by simp
    moreover have "\<exists>resp f. fst (legacy_download_image w d u) = Inr resp \<and>
                get_filename_from_url w resp = Inr (Some f) \<and>
                v = (if path_join ?dir f \<in> set (dict_values (l_replacement_mapping st @ m1))
                     then path_join ?dir (md5_hexdigest w u @ ''_'' @ f)
                     else path_join ?dir f)"
      if d: "(a, va) # ms = m1 @ (u, v) # m2" for m1 u v m2
    proof (cases m1)
      case Nil
      with d have "u = a" "v = va" by simp_all
      with rf Nil show ?thesis by (auto simp: va_def)
    next
      case (Cons x m1')
      with d have x: "x = (a, va)" and "ms = m1' @ (u, v) # m2" by simp_all
      from ms(3) [OF this(2)] show ?thesis
        using m1 by (simp add: Cons x va_def)
    qed
    ultimately show ?thesis by blast
  qed
qed

lemma setdefault_distinct:
  "distinct (dict_keys m) \<Longrightarrow> distinct (dict_keys (setdefault m k v))"
  by (simp add: setdefault_def dict_keys_def)

lemma legacy_store_setdefault:
  assumes "legacy_store w d st u fo c = Inr st'"
  shows "\<exists>v. l_replacement_mapping st' = setdefault (l_replacement_mapping st) u v"
  using assms
  by (auto simp: legacy_store_def Let_def
      split: option.splits prod.splits if_splits dest!: legacy_write_image_fields)

lemma legacy_step_distinct:
  assumes "legacy_step w d n i st u = Inr st'" and "distinct (dict_keys (l_replacement_mapping st))"
  shows "distinct (dict_keys (l_replacement_mapping st'))"
proof -
  have "l_replacement_mapping st' = l_replacement_mapping st \<or>
        (\<exists>v. l_replacement_mapping st' = setdefault (l_replacement_mapping st) u v)"
    using assms(1)
    by (auto simp: legacy_step_def Let_def split: if_splits prod.splits sum.splits
        dest!: legacy_store_setdefault)
  with assms(2) show ?thesis
    by (auto simp: setdefault_distinct)
qed

lemma legacy_loop_distinct:
  "legacy_loop w d n i st images = Inr st' \<Longrightarrow>
   distinct (dict_keys (l_replacement_mapping st)) \<Longrightarrow>
   distinct (dict_keys (l_replacement_mapping st'))"
proof (induction images arbitrary: i st)
  case Nil
  then show ?case by simp
next
  case (Cons a images)
  from Cons.prems(1) obtain st1 where s: "legacy_step w d n i st a = Inr st1"
    and l: "legacy_loop w d n (Suc i) st1 images = Inr st'"
    by (auto split: sum.splits)
  from Cons.IH [OF l legacy_step_distinct [OF s Cons.prems(2)]] show ?case .
qed

lemma legacy_run_loop:
  "legacy_run w d images = Inr st \<Longrightarrow>
   legacy_loop w d (length images) 0 (legacy_initial_state d) images = Inr st"
  by (auto simp: legacy_run_def split: option.splits if_splits)

subsection \<open>Packaged variant\<close>

lemma fst_get_remote_image:
  "fst (get_remote_image w d u i n) = fst (get_remote_image w d u 0 0)"
  by (simp add: get_remote_image_def)

lemma correct_paths_cases:
  "correct_paths w d m (get_document_img_path d f) u f = (f, get_document_img_path d f) \<or>
   correct_paths w d m (get_document_img_path d f) u f =
     (md5_hexdigest w u @ ''_'' @ f, get_document_img_path d (md5_hexdigest w u @ ''_'' @ f))"
proof (induction m)
  case Nil
  then show ?case by simp
next
  case (Cons x m)
  obtain k v where x: "x = (k, v)" by (cases x)
  show ?case
  proof (cases "path_eq (get_document_img_path d f) v \<and> u \<noteq> k")
    case True
    then show ?thesis unfolding x by simp
  next
    case False
    then have "correct_paths w d (x # m) (get_document_img_path d f) u f =
               correct_paths w d m (get_document_img_path d f) u f"
      unfolding x by auto
    with Cons.IH show ?thesis by simp
  qed
qed

lemma write_image_fields:
  "write_image w p c st = Inr st' \<Longrightarrow>
     replacement_mapping st' = replacement_mapping st \<and> dedup_state st' = dedup_state st"
  by (auto simp: write_image_def split: option.splits)

lemma save_mapping:
  assumes "save w d st k fo c = Inr st'"
  shows "\<exists>f. fo = Some f \<and>
           (replacement_mapping st' = setdefault (replacement_mapping st) k
              (PyStr (str_join ''/'' (parts (get_document_img_path d f)))) \<or>
            replacement_mapping st' = setdefault (replacement_mapping st) k
              (PyStr (str_join ''/'' (parts (get_document_img_path d (md5_hexdigest w k @ ''_'' @ f))))))"
proof (cases fo)
  case None
  with assms show ?thesis by (simp add: save_def)
next
  case (Some f)
  from correct_paths_cases [of w d "replacement_mapping st" f k] assms Some show ?thesis
    by (auto simp: save_def Let_def dest!: write_image_fields)
qed

lemma step_entry:
  assumes "deduplicator d = None" and "skip_list d = []"
    and "step w d n i st u = Inr st'"
  shows "if fetched w d u
         then \<exists>f c v. obtained w d u = Inr (Some f, c) \<and>
                (v = PyStr (str_join ''/'' (parts (get_document_img_path d f))) \<or>
                 v = PyStr (str_join ''/'' (parts (get_document_img_path d
                        (md5_hexdigest w (effective_url w d u) @ ''_'' @ f))))) \<and>
                replacement_mapping st' =
                  setdefault (replacement_mapping st) (effective_url w d u) v
         else replacement_mapping st' = replacement_mapping st"
proof (cases "is_url w u \<or> process_local_images d \<or> article_base_url d \<noteq> []")
  case False
  with assms show ?thesis
    by (auto simp: step_def fetched_def split: if_splits)
next
  case True
  from assms(3) have k: "u \<notin> set (dict_keys (replacement_mapping st))"
    by (auto simp: step_def split: if_splits)
  let ?stb = "if \<not> is_url w u \<and> \<not> process_local_images d
         then emit [Log WARNING (Has_incorrect_url (i + 1) u),
                    Log DEBUG (Trying_base_url (article_base_url d))] st
         else st"
  have s: "step w d n i st u = obtain_image w d n i ?stb (effective_url w d u) (is_url w u)"
    using step_reaches_obtain_image [OF k _ True, of n i] assms(2)
    by (simp add: effective_url_def)
  obtain r effs where a: "(if is_url w u then get_remote_image w d (effective_url w d u) i n
      else get_local_image w (Path (effective_url w d u))) = (r, effs)"
    by (cases "if is_url w u then get_remote_image w d (effective_url w d u) i n
      else get_local_image w (Path (effective_url w d u))") simp
  then have r: "obtained w d u = r"
    using fst_get_remote_image [of w d "effective_url w d u" i n]
    by (auto simp: obtained_def split: if_splits)
  show ?thesis
  proof (cases r)
    case (Inl e)
    with assms(3) s a r True show ?thesis
      by (auto simp: obtain_image_def fetched_def split: if_splits)
  next
    case (Inr fc)
    obtain fo c where fc: "fc = (fo, c)" by (cases fc)
    with assms(1,3) s a Inr have
      "save w d (emit effs ?stb) (effective_url w d u) fo c = Inr st'"
      by (simp add: obtain_image_def store_def)
    from save_mapping [OF this] obtain f where f: "fo = Some f"
      "replacement_mapping st' = setdefault (replacement_mapping st) (effective_url w d u)
              (PyStr (str_join ''/'' (parts (get_document_img_path d f)))) \<or>
       replacement_mapping st' = setdefault (replacement_mapping st) (effective_url w d u)
              (PyStr (str_join ''/'' (parts (get_document_img_path d
                  (md5_hexdigest w (effective_url w d u) @ ''_'' @ f)))))"
      by (auto split: if_splits)
    have "fetched w d u"
      using True r Inr by (simp add: fetched_def)
    moreover have "obtained w d u = Inr (Some f, c)"
      using r Inr fc f(1) by simp
    ultimately show ?thesis
      using f(2) by auto
  qed
qed

lemma loop_entries:
  assumes "deduplicator d = None" and "skip_list d = []"
  shows "loop w d n i st images = Inr st' \<Longrightarrow>
     distinct (map (effective_url w d) (filter (fetched w d) images)) \<Longrightarrow>
     (\<forall>u \<in> set (filter (fetched w d) images).
         effective_url w d u \<notin> set (dict_keys (replacement_mapping st))) \<Longrightarrow>
     \<exists>ms. replacement_mapping st' = replacement_mapping st @ ms \<and>
          list_all2 (\<lambda>u kv. fst kv = effective_url w d u \<and>
              (\<exists>f c. obtained w d u = Inr (Some f, c) \<and>
                 (snd kv = PyStr (str_join ''/'' (parts (get_document_img_path d f))) \<or>
                  snd kv = PyStr (str_join ''/'' (parts (get_document_img_path d
                        (md5_hexdigest w (effective_url w d u) @ ''_'' @ f)))))))
            (filter (fetched w d) images) ms"
proof (induction images arbitrary: i st)
  case Nil
  then show ?case by simp
next
  case (Cons a images)
  let ?P = "\<lambda>u kv. fst kv = effective_url w d u \<and>
              (\<exists>f c. obtained w d u = Inr (Some f, c) \<and>
                 (snd kv = PyStr (str_join ''/'' (parts (get_document_img_path d f))) \<or>
                  snd kv = PyStr (str_join ''/'' (parts (get_document_img_path d
                        (md5_hexdigest w (effective_url w d u) @ ''_'' @ f))))))"
  from Cons.prems(1) obtain st1 where s: "step w d n i st a = Inr st1"
    and l: "loop w d n (Suc i) st1 images = Inr st'"
    by (auto split: sum.splits)
  note e = step_entry [OF assms s]
  show ?case
  proof (cases "fetched w d a")
    case False
    with e have eq: "replacement_mapping st1 = replacement_mapping st" by simp
    from Cons.prems(2,3) False have
      "distinct (map (effective_url w d) (filter (fetched w d) images))"
      "\<forall>u \<in> set (filter (fetched w d) images).
         effective_url w d u \<notin> set (dict_keys (replacement_mapping st1))"
      by (simp_all add: eq)
    from Cons.IH [OF l this] obtain ms where
      "replacement_mapping st' = replacement_mapping st1 @ ms"
      "list_all2 ?P (filter (fetched w d) images) ms" by blast
    with eq False show ?thesis by auto
  next
    case True
    with e obtain f c v where o: "obtained w d a = Inr (Some f, c)"
      and v: "v = PyStr (str_join ''/'' (parts (get_document_img_path d f))) \<or>
              v = PyStr (str_join ''/'' (parts (get_document_img_path d
                        (md5_hexdigest w (effective_url w d a) @ ''_'' @ f))))"
      and m: "replacement_mapping st1 =
                setdefault (replacement_mapping st) (effective_url w d a) v"
      by auto
    from Cons.prems(3) True have
      "effective_url w d a \<notin> set (dict_keys (replacement_mapping st))" by simp
    with m have m1: "replacement_mapping st1 =
        replacement_mapping st @ [(effective_url w d a, v)]"
      by (simp add: setdefault_def)
    from Cons.prems(2) True have
      dst: "distinct (map (effective_url w d) (filter (fetched w d) images))"
      and na: "effective_url w d a \<notin> effective_url w d ` set (filter (fetched w d) images)"
      by simp_all
    have "\<forall>u \<in> set (filter (fetched w d) images).
         effective_url w d u \<notin> set (dict_keys (replacement_mapping st1))"
    proof
      fix u assume u: "u \<in> set (filter (fetched w d) images)"
      with Cons.prems(3) have "effective_url w d u \<notin> set (dict_keys (replacement_mapping st))"
        by simp
      moreover from u na have "effective_url w d u \<noteq> effective_url w d a"
        by (metis imageI)
      ultimately show "effective_url w d u \<notin> set (dict_keys (replacement_mapping st1))"
        by (simp add: m1 dict_keys_def)
    qed
    with dst have
      "distinct (map (effective_url w d) (filter (fetched w d) images))"
      "\<forall>u \<in> set (filter (fetched w d) images).
         effective_url w d u \<notin> set (dict_keys (replacement_mapping st1))"
      by simp_all
    from Cons.IH [OF l this] obtain ms where ms:
      "replacement_mapping st' = replacement_mapping st1 @ ms"
      "list_all2 ?P (filter (fetched w d) images) ms" by blast
    have "replacement_mapping st' =
            replacement_mapping st @ ((effective_url w d a, v) # ms)"
      using ms(1) m1 by simp
    moreover have "list_all2 ?P (filter (fetched w d) (a # images))
                     ((effective_url w d a, v) # ms)"
      using ms(2) True o v by auto
    ultimately show ?thesis by blast
  qed
qed

lemma run_loop:
  "run w d ds images = Inr st \<Longrightarrow> loop w d (length images) 0 (initial_state d ds) images = Inr st"
  by (auto simp: run_def split: option.splits if_splits)

text \<open>
  Claim C1, as amended. Let the skip list be empty and deduplication be off, and let the
  run return a mapping. The mapping has one entry for each fetched reference, in the order
  of the list. In the packaged variant (first conjunct) the entry's key is the effective
  URL of the reference, provided the effective URLs of the fetched references are pairwise
  distinct, and its value is the document path of the derived file name or of the name
  with the digest of the key and an underscore before it. In the legacy script (second
  conjunct) the keys are the fetched references, each once, and an entry's value is the
  document path of the derived file name, unless that path is the value of an earlier
  entry: then it is the path of the name with the digest before it. Nothing compares that
  second path with the earlier entries, so the values need not be pairwise distinct.
\<close>

theorem mapping_entries:
  "(deduplicator d = None \<and> skip_list d = [] \<and>
    distinct (map (effective_url w d) (filter (fetched w d) images)) \<and>
    download_images w d ds images = Inr m
    \<longrightarrow> list_all2 (\<lambda>u kv. fst kv = effective_url w d u \<and>
              (\<exists>f c. obtained w d u = Inr (Some f, c) \<and>
                 (snd kv = PyStr (str_join ''/'' (parts (get_document_img_path d f))) \<or>
                  snd kv = PyStr (str_join ''/'' (parts (get_document_img_path d
                        (md5_hexdigest w (effective_url w d u) @ ''_'' @ f)))))))
            (filter (fetched w d) images) m)
   \<and>
   (\<not> l_deduplication ld \<and> l_skip_list ld = [] \<and>
    legacy_download_images w ld images = Inr lm
    \<longrightarrow> dict_keys lm = filter (legacy_fetched w ld) images \<and>
        distinct (dict_keys lm) \<and>
        (\<forall>m1 u v m2. lm = m1 @ (u, v) # m2 \<longrightarrow>
           (\<exists>resp f. fst (legacy_download_image w ld u) = Inr resp \<and>
              get_filename_from_url w resp = Inr (Some f) \<and>
              v = (if path_join (str_or (l_img_public_path ld) (l_img_dir_name ld)) f
                        \<in> set (dict_values m1)
                   then path_join (str_or (l_img_public_path ld) (l_img_dir_name ld))
                          (md5_hexdigest w u @ ''_'' @ f)
                   else path_join (str_or (l_img_public_path ld) (l_img_dir_name ld)) f))))"
proof (intro conjI impI; elim conjE)
  assume a: "deduplicator d = None" "skip_list d = []"
    "distinct (map (effective_url w d) (filter (fetched w d) images))"
    "download_images w d ds images = Inr m"
  from a(4) obtain st where r: "run w d ds images = Inr st" and m: "m = replacement_mapping st"
    by (cases "run w d ds images") (auto simp: download_images_def)
  have "\<forall>u \<in> set (filter (fetched w d) images).
         effective_url w d u \<notin> set (dict_keys (replacement_mapping (initial_state d ds)))"
    by (simp add: initial_state_def dict_keys_def)
  from loop_entries [OF a(1,2) run_loop [OF r] a(3) this]
  show "list_all2 (\<lambda>u kv. fst kv = effective_url w d u \<and>
              (\<exists>f c. obtained w d u = Inr (Some f, c) \<and>
                 (snd kv = PyStr (str_join ''/'' (parts (get_document_img_path d f))) \<or>
                  snd kv = PyStr (str_join ''/'' (parts (get_document_img_path d
                        (md5_hexdigest w (effective_url w d u) @ ''_'' @ f)))))))
            (filter (fetched w d) images) m"
    by (simp add: m initial_state_def)
next
  assume a: "\<not> l_deduplication ld" "l_skip_list ld = []"
    "legacy_download_images w ld images = Inr lm"
  from a(3) obtain st where r: "legacy_run w ld images = Inr st"
    and m: "lm = l_replacement_mapping st"
    by (cases "legacy_run w ld images") (auto simp: legacy_download_images_def)
  note l = legacy_run_loop [OF r]
  from legacy_loop_entries [OF a(1,2) l] obtain ms where
    ms: "l_replacement_mapping st = l_replacement_mapping (legacy_initial_state ld) @ ms"
      "map fst ms = filter (legacy_fetched w ld) images"
      "\<forall>m1 u v m2. ms = m1 @ (u, v) # m2 \<longrightarrow>
             (\<exists>resp f. fst (legacy_download_image w ld u) = Inr resp \<and>
                get_filename_from_url w resp = Inr (Some f) \<and>
                v = (if path_join (str_or (l_img_public_path ld) (l_img_dir_name ld)) f
                          \<in> set (dict_values (l_replacement_mapping (legacy_initial_state ld) @ m1))
                     then path_join (str_or (l_img_public_path ld) (l_img_dir_name ld))
                              (md5_hexdigest w u @ ''_'' @ f)
                     else path_join (str_or (l_img_public_path ld) (l_img_dir_name ld)) f))"
    by blast
  have e: "l_replacement_mapping (legacy_initial_state ld) = []"
    by (simp add: legacy_initial_state_def)
  from ms(1) have lm: "lm = ms" by (simp add: m e)
  show "dict_keys lm = filter (legacy_fetched w ld) images"
    using ms(2) by (simp add: lm dict_keys_def)
  show "distinct (dict_keys lm)"
    using legacy_loop_distinct [OF l] by (simp add: m e dict_keys_def)
  show "\<forall>m1 u v m2. lm = m1 @ (u, v) # m2 \<longrightarrow>
           (\<exists>resp f. fst (legacy_download_image w ld u) = Inr resp \<and>
              get_filename_from_url w resp = Inr (Some f) \<and>
              v = (if path_join (str_or (l_img_public_path ld) (l_img_dir_name ld)) f
                        \<in> set (dict_values m1)
                   then path_join (str_or (l_img_public_path ld) (l_img_dir_name ld))
                          (md5_hexdigest w u @ ''_'' @ f)
                   else path_join (str_or (l_img_public_path ld) (l_img_dir_name ld)) f))"
    using ms(3) unfolding lm e by simp
qed

text \<open>The theorem at work: three URLs, the second of which cannot be fetched, in the
  packaged variant with \<open>skip_all_errors\<close> set, and two URLs with the same file name in
  the legacy script.\<close>

theorem mapping_entries_witness:
  "list_all2 (\<lambda>u kv. fst kv = effective_url demo_world (demo_downloader\<lparr>skip_all_errors := True\<rparr>) u \<and>
        (\<exists>f c. obtained demo_world (demo_downloader\<lparr>skip_all_errors := True\<rparr>) u = Inr (Some f, c) \<and>
           (snd kv = PyStr (str_join ''/'' (parts (get_document_img_path
                        (demo_downloader\<lparr>skip_all_errors := True\<rparr>) f))) \<or>
            snd kv = PyStr (str_join ''/'' (parts (get_document_img_path
                        (demo_downloader\<lparr>skip_all_errors := True\<rparr>)
                        (md5_hexdigest demo_world
                           (effective_url demo_world (demo_downloader\<lparr>skip_all_errors := True\<rparr>) u)
                         @ ''_'' @ f)))))))
      (filter (fetched demo_world (demo_downloader\<lparr>skip_all_errors := True\<rparr>))
         [''http://a.com/x.png'', ''http://e.com/none.png'', ''http://b.com/x.png''])
      [(''http://a.com/x.png'', PyStr ''images/x.png''),
       (''http://b.com/x.png'', PyStr ''images/x.png'')]
   \<and> filter (fetched demo_world (demo_downloader\<lparr>skip_all_errors := True\<rparr>))
         [''http://a.com/x.png'', ''http://e.com/none.png'', ''http://b.com/x.png''] =
       [''http://a.com/x.png'', ''http://b.com/x.png'']
   \<and> dict_keys [(''http://a.com/x.png'', ''images/x.png''),
                 (''http://b.com/x.png'', ''images/5ed3e12035efe5c75f34f7c17a21bb14_x.png'')] =
       filter (legacy_fetched demo_world demo_legacy) [''http://a.com/x.png'', ''http://b.com/x.png'']
   \<and> (\<exists>resp f. fst (legacy_download_image demo_world demo_legacy ''http://b.com/x.png'') = Inr resp \<and>
          get_filename_from_url demo_world resp = Inr (Some f) \<and>
          ''images/5ed3e12035efe5c75f34f7c17a21bb14_x.png'' =
            (if path_join (str_or (l_img_public_path demo_legacy) (l_img_dir_name demo_legacy)) f
                  \<in> set (dict_values [(''http://a.com/x.png'', ''images/x.png'')])
             then path_join (str_or (l_img_public_path demo_legacy) (l_img_dir_name demo_legacy))
                    (md5_hexdigest demo_world ''http://b.com/x.png'' @ ''_'' @ f)
             else path_join (str_or (l_img_public_path demo_legacy) (l_img_dir_name demo_legacy)) f))"
proof -
  let ?d = "demo_downloader\<lparr>skip_all_errors := True\<rparr>"
  let ?imgs = "[''http://a.com/x.png'', ''http://e.com/none.png'', ''http://b.com/x.png'']"
  have f: "filter (fetched demo_world ?d) ?imgs = [''http://a.com/x.png'', ''http://b.com/x.png'']"
    by (simp add: fetched_def obtained_def effective_url_def py_eval packaged_eval demo_eval)
  have e: "effective_url demo_world ?d ''http://a.com/x.png'' = ''http://a.com/x.png''"
    "effective_url demo_world ?d ''http://b.com/x.png'' = ''http://b.com/x.png''"
    by (simp_all add: effective_url_def py_eval packaged_eval demo_eval)
  have p: "deduplicator ?d = None \<and> skip_list ?d = [] \<and>
      distinct (map (effective_url demo_world ?d) (filter (fetched demo_world ?d) ?imgs)) \<and>
      download_images demo_world ?d () ?imgs =
        Inr [(''http://a.com/x.png'', PyStr ''images/x.png''),
             (''http://b.com/x.png'', PyStr ''images/x.png'')]"
    unfolding f by (simp add: e) (simp add: py_eval packaged_eval demo_eval)
  have l: "\<not> l_deduplication demo_legacy \<and> l_skip_list demo_legacy = [] \<and>
      legacy_download_images demo_world demo_legacy [''http://a.com/x.png'', ''http://b.com/x.png''] =
        Inr [(''http://a.com/x.png'', ''images/x.png''),
             (''http://b.com/x.png'', ''images/5ed3e12035efe5c75f34f7c17a21bb14_x.png'')]"
    by (simp add: py_eval legacy_eval demo_eval)
  note t = mapping_entries [where w = demo_world and d = ?d and ds = "()" and images = ?imgs
      and m = "[(''http://a.com/x.png'', PyStr ''images/x.png''),
                (''http://b.com/x.png'', PyStr ''images/x.png'')]"]
  note t1 = t [THEN conjunct1, rule_format, OF p]
  note u = mapping_entries [where w = demo_world and ld = demo_legacy
      and images = "[''http://a.com/x.png'', ''http://b.com/x.png'']"
      and lm = "[(''http://a.com/x.png'', ''images/x.png''),
                 (''http://b.com/x.png'', ''images/5ed3e12035efe5c75f34f7c17a21bb14_x.png'')]"]
  note u1 = u [THEN conjunct2, rule_format, OF l]
  have u2: "\<exists>resp f. fst (legacy_download_image demo_world demo_legacy ''http://b.com/x.png'') = Inr resp \<and>
          get_filename_from_url demo_world resp = Inr (Some f) \<and>
          ''images/5ed3e12035efe5c75f34f7c17a21bb14_x.png'' =
            (if path_join (str_or (l_img_public_path demo_legacy) (l_img_dir_name demo_legacy)) f
                  \<in> set (dict_values [(''http://a.com/x.png'', ''images/x.png'')])
             then path_join (str_or (l_img_public_path demo_legacy) (l_img_dir_name demo_legacy))
                    (md5_hexdigest demo_world ''http://b.com/x.png'' @ ''_'' @ f)
             else path_join (str_or (l_img_public_path demo_legacy) (l_img_dir_name demo_legacy)) f)"
    using u1 [THEN conjunct2, THEN conjunct2, rule_format,
        of "[(''http://a.com/x.png'', ''images/x.png'')]" "''http://b.com/x.png''"
           "''images/5ed3e12035efe5c75f34f7c17a21bb14_x.png''" "[]"]
    by simp
  show ?thesis
    using t1 f u1 [THEN conjunct1] u2 by blast
qed

text \<open>
  Two references with different bytes and one document path, in the legacy script: the
  first URL ends in the very name that the third is renamed to, the MD5 digest of
  \<^verbatim>\<open>http://c.com/x.png\<close> followed by \<^verbatim>\<open>_x.png\<close>.
\<close>

theorem legacy_three_way_collision:
  "distinct [''http://d.com/aa2e328828517d5bfe0c448047eabc31_x.png'', ''http://a.com/x.png'',
             ''http://c.com/x.png'']
   \<and> l_skip_list demo_legacy = []
   \<and> \<not> l_deduplication demo_legacy
   \<and> legacy_download_images demo_world demo_legacy
       [''http://d.com/aa2e328828517d5bfe0c448047eabc31_x.png'', ''http://a.com/x.png'',
        ''http://c.com/x.png''] =
     Inr [(''http://d.com/aa2e328828517d5bfe0c448047eabc31_x.png'',
             ''images/aa2e328828517d5bfe0c448047eabc31_x.png''),
          (''http://a.com/x.png'', ''images/x.png''),
          (''http://c.com/x.png'', ''images/aa2e328828517d5bfe0c448047eabc31_x.png'')]
   \<and> \<not> distinct (dict_values
         [(''http://d.com/aa2e328828517d5bfe0c448047eabc31_x.png'',
             ''images/aa2e328828517d5bfe0c448047eabc31_x.png''),
          (''http://a.com/x.png'', ''images/x.png''),
          (''http://c.com/x.png'', ''images/aa2e328828517d5bfe0c448047eabc31_x.png'')])
   \<and> map_sum id content (demo_net ''http://d.com/aa2e328828517d5bfe0c448047eabc31_x.png'') = Inr ''DDD''
   \<and> map_sum id content (demo_net ''http://c.com/x.png'') = Inr ''CCC''"
  by (simp add: py_eval legacy_eval demo_eval dict_values_def)

end
